theory Spec2Isabelle
  imports Complex_Main
begin

section \<open>Python arithmetic that can raise\<close>

text \<open>
  Both scripts, \<^verbatim>\<open>special_angles.py\<close> and \<^verbatim>\<open>special_angles_numpy.py\<close>, are
  straight-line module-level code over floats. The code is read twice. The first reading
  computes over the real numbers and threads the module namespace; it carries the
  identities of the docstring, the printed values at the sides the scripts use, and the
  state of the scripts. The second reading, further down, is binary64 arithmetic with
  its rounding, underflow and overflow; it carries what depends on the size of \<open>r\<close>.
\<close>

datatype py_error = ValueError | ZeroDivisionError | OverflowError

definition math_sqrt :: "real \<Rightarrow> py_error + real" where
  \<comment> \<open>\<^verbatim>\<open>math.sqrt\<close> raises ValueError (math domain error) on a negative argument.\<close>
  "math_sqrt v = (if v < 0 then Inl ValueError else Inr (sqrt v))"

definition truediv :: "real \<Rightarrow> real \<Rightarrow> py_error + real" where
  \<comment> \<open>Float division \<^verbatim>\<open>a / b\<close> raises ZeroDivisionError when the divisor is zero.\<close>
  "truediv a b = (if b = 0 then Inl ZeroDivisionError else Inr (a / b))"

definition fmt4 :: "real \<Rightarrow> int" where
  \<comment> \<open>The format \<^verbatim>\<open>:.4f\<close>: the value in units of 0.0001, rounded to the nearest unit.\<close>
  "fmt4 v = round (v * 10000)"

section \<open>The module namespace\<close>

text \<open>
  The scripts keep everything in module-level variables that each run of the pipeline
  overwrites. The record holds the variables the pipeline reads or writes, and the lines
  printed so far. The name \<^verbatim>\<open>x\<close> is reused by the matplotlib script for a grid of
  sphere coordinates, so it holds either a float or an array.
\<close>

datatype pyval = PyFloat real | NdArray "real list list"

datatype line =
    DiagonalLine int   \<comment> \<open>\<^verbatim>\<open>Diagonal length of the cube: {diag_length:.4f}\<close>\<close>
  | RadiusLine int     \<comment> \<open>\<^verbatim>\<open>Radius of the sphere: {sphere_radius:.4f}\<close>\<close>
  | VolumeLine int     \<comment> \<open>\<^verbatim>\<open>Volume of the sphere: {sphere_volume:.4f}\<close>\<close>
  | SinLine int        \<comment> \<open>\<^verbatim>\<open>sin(pi/3) = {sin_pi_3:.4f}\<close>\<close>
  | ExampleLine nat real  \<comment> \<open>\<^verbatim>\<open>Example n (r = {r}):\<close>\<close>

record globals =
  r :: real
  diag_length :: real
  sphere_radius :: real
  sphere_volume :: real
  x :: pyval
  sin_pi_3 :: real
  stdout :: "line list"

definition blank :: globals where
  \<comment> \<open>A namespace to start from. No statement is read before it is assigned, and the
      theorems below hold for every starting namespace.\<close>
  "blank = \<lparr>r = 0, diag_length = 0, sphere_radius = 0, sphere_volume = 0,
            x = PyFloat 0, sin_pi_3 = 0, stdout = []\<rparr>"

section \<open>The four steps of the pipeline\<close>

definition step1 :: "globals \<Rightarrow> py_error + globals" where
  \<comment> \<open>\<^verbatim>\<open>diag_length = math.sqrt(r**2 + (math.sqrt(2)*r)**2)\<close>\<close>
  "step1 s =
     (case math_sqrt ((r s)\<^sup>2 + (sqrt 2 * r s)\<^sup>2) of
        Inl e \<Rightarrow> Inl e
      | Inr d \<Rightarrow> Inr (s\<lparr>diag_length := d\<rparr>))"

definition step2 :: "globals \<Rightarrow> globals" where
  \<comment> \<open>\<^verbatim>\<open>sphere_radius = diag_length / 2\<close>\<close>
  "step2 s = s\<lparr>sphere_radius := diag_length s / 2\<rparr>"

definition step3 :: "globals \<Rightarrow> globals" where
  \<comment> \<open>\<^verbatim>\<open>sphere_volume = (4/3) * math.pi * sphere_radius**3\<close>\<close>
  "step3 s = s\<lparr>sphere_volume := (4 / 3) * pi * (sphere_radius s) ^ 3\<rparr>"

definition step4 :: "globals \<Rightarrow> py_error + globals" where
  \<comment> \<open>\<^verbatim>\<open>x = r * math.sin(math.pi / 3)\<close> and then
      \<^verbatim>\<open>sin_pi_3 = sphere_volume / (math.pi * x**3)\<close>, which reads the float just bound.\<close>
  "step4 s =
     (let xv = r s * sin (pi / 3) in
      case truediv (sphere_volume s) (pi * xv ^ 3) of
        Inl e \<Rightarrow> Inl e
      | Inr q \<Rightarrow> Inr (s\<lparr>x := PyFloat xv, sin_pi_3 := q\<rparr>))"

definition pipeline :: "globals \<Rightarrow> py_error + globals" where
  \<comment> \<open>The five assignments in order; an exception ends the run.\<close>
  "pipeline s =
     (case step1 s of
        Inl e \<Rightarrow> Inl e
      | Inr s1 \<Rightarrow> step4 (step3 (step2 s1)))"

definition evaluate :: "real \<Rightarrow> globals \<Rightarrow> py_error + globals" where
  \<comment> \<open>\<^verbatim>\<open>r = a\<close> followed by the pipeline.\<close>
  "evaluate a s = pipeline (s\<lparr>r := a\<rparr>)"

definition outputs :: "globals \<Rightarrow> real \<times> real \<times> real \<times> real" where
  "outputs s = (diag_length s, sphere_radius s, sphere_volume s, sin_pi_3 s)"

section \<open>Printing and the two scripts\<close>

definition emit :: "line \<Rightarrow> globals \<Rightarrow> globals" where
  "emit l s = s\<lparr>stdout := stdout s @ [l]\<rparr>"

definition report :: "globals \<Rightarrow> globals" where
  \<comment> \<open>The four \<^verbatim>\<open>print\<close> calls that end each example.\<close>
  "report s =
     emit (SinLine (fmt4 (sin_pi_3 s)))
       (emit (VolumeLine (fmt4 (sphere_volume s)))
         (emit (RadiusLine (fmt4 (sphere_radius s)))
           (emit (DiagonalLine (fmt4 (diag_length s))) s)))"

definition first_run :: "real \<Rightarrow> globals \<Rightarrow> py_error + globals" where
  \<comment> \<open>Lines 24 to 41: each step is followed by its \<^verbatim>\<open>print\<close>.\<close>
  "first_run a s =
     (case step1 (s\<lparr>r := a\<rparr>) of
        Inl e \<Rightarrow> Inl e
      | Inr s1 \<Rightarrow>
          (let s1' = emit (DiagonalLine (fmt4 (diag_length s1))) s1;
               s2 = step2 s1';
               s2' = emit (RadiusLine (fmt4 (sphere_radius s2))) s2;
               s3 = step3 s2';
               s3' = emit (VolumeLine (fmt4 (sphere_volume s3))) s3
           in case step4 s3' of
                Inl e \<Rightarrow> Inl e
              | Inr s4 \<Rightarrow> Inr (emit (SinLine (fmt4 (sin_pi_3 s4))) s4)))"

definition example :: "nat \<Rightarrow> real \<Rightarrow> globals \<Rightarrow> py_error + globals" where
  \<comment> \<open>The blocks \<^verbatim>\<open>Example 1\<close> and \<^verbatim>\<open>Example 2\<close>: the pipeline, then the header
      line and the four values.\<close>
  "example n a s =
     (case evaluate a s of
        Inl e \<Rightarrow> Inl e
      | Inr s' \<Rightarrow> Inr (report (emit (ExampleLine n (r s')) s')))"

definition visualise_plotly :: "globals \<Rightarrow> globals" where
  \<comment> \<open>\<^verbatim>\<open>special_angles.py\<close>: the figure is built from \<^verbatim>\<open>r\<close> and \<^verbatim>\<open>diag_length\<close>
      and bound to \<^verbatim>\<open>fig\<close>; no variable of the pipeline is assigned.\<close>
  "visualise_plotly s = s"

definition visualise_numpy :: "globals \<Rightarrow> globals" where
  \<comment> \<open>\<^verbatim>\<open>special_angles_numpy.py\<close>: \<^verbatim>\<open>u, v = np.mgrid[0:2*np.pi:20j, 0:np.pi:10j]\<close>
      and \<^verbatim>\<open>x = sphere_radius * np.cos(u) * np.sin(v)\<close> rebind \<^verbatim>\<open>x\<close> to a 20 by 10
      array; the other names assigned here are not used by the pipeline.\<close>
  "visualise_numpy s =
     s\<lparr>x := NdArray
        (map (\<lambda>i. map (\<lambda>j. sphere_radius s * cos (2 * pi * real i / 19) * sin (pi * real j / 9))
                [0..<10])
          [0..<20])\<rparr>"

definition script :: "(globals \<Rightarrow> globals) \<Rightarrow> real \<Rightarrow> real \<Rightarrow> real \<Rightarrow> globals \<Rightarrow> py_error + globals" where
  \<comment> \<open>The module body up to the tests: the first run, the figure, the two examples.\<close>
  "script visualise a b c s =
     (case first_run a s of
        Inl e \<Rightarrow> Inl e
      | Inr s1 \<Rightarrow>
          (case example 1 b (visualise s1) of
             Inl e \<Rightarrow> Inl e
           | Inr s2 \<Rightarrow> example 2 c s2))"

definition special_angles :: "globals \<Rightarrow> py_error + globals" where
  "special_angles s = script visualise_plotly 1 2 3 s"

definition special_angles_numpy :: "globals \<Rightarrow> py_error + globals" where
  "special_angles_numpy s = script visualise_numpy 1 2 3 s"

definition exit_status :: "py_error + globals \<Rightarrow> nat" where
  \<comment> \<open>Nothing in the scripts catches an exception: the interpreter prints the traceback
      and exits with status 1.\<close>
  "exit_status res = (case res of Inl e \<Rightarrow> 1 | Inr s \<Rightarrow> 0)"

section \<open>The same lines in binary64\<close>

text \<open>
  Python floats are IEEE 754 binary64 numbers. The definitions of this section read the
  five assignments once more, with every operation rounding its exact result to the
  binary64 grid (round to nearest, ties to even), with underflow to zero, overflow to
  infinity, and the exceptions CPython raises. A finite value carries the real number it
  denotes; the two signed zeros are one value, and \<open>rv\<close> stands for the value of
  \<^verbatim>\<open>r\<close>. \<^verbatim>\<open>**\<close> and \<^verbatim>\<open>math.sin\<close> are taken
  as correctly rounded, like the basic operations and \<^verbatim>\<open>math.sqrt\<close>.
\<close>

definition rne :: "real \<Rightarrow> int" where
  \<comment> \<open>Round to the nearest integer, a tie to the even one.\<close>
  "rne q =
     (let f = \<lfloor>q\<rfloor> in
      if q - of_int f < 1 / 2 then f
      else if 1 / 2 < q - of_int f then f + 1
      else if even f then f else f + 1)"

definition f64_exponent :: "real \<Rightarrow> int" where
  \<comment> \<open>The binary exponent of a non-zero value, not below that of the subnormals.\<close>
  "f64_exponent v = max \<lfloor>log 2 \<bar>v\<bar>\<rfloor> (- 1022)"

definition f64_ulp :: "real \<Rightarrow> real" where
  \<comment> \<open>The spacing of the grid around a non-zero value: 53 significant bits.\<close>
  "f64_ulp v = 2 powr (of_int (f64_exponent v) - 52)"

definition f64_grid :: "real \<Rightarrow> real" where
  "f64_grid v = (if v = 0 then 0 else of_int (rne (v / f64_ulp v)) * f64_ulp v)"

datatype f64 = Fin real | Inf bool | NaN

definition f64_max :: real where
  \<comment> \<open>The largest finite binary64 number.\<close>
  "f64_max = (2 ^ 53 - 1) * 2 ^ 971"

definition f64_of_real :: "real \<Rightarrow> f64" where
  \<comment> \<open>The float an exact result becomes; \<open>Inf True\<close> is plus infinity.\<close>
  "f64_of_real v =
     (let w = f64_grid v in
      if f64_max < w then Inf True else if w < - f64_max then Inf False else Fin w)"

definition math_pi :: real where
  \<comment> \<open>\<^verbatim>\<open>math.pi\<close>, the binary64 number 0x400921FB54442D18.\<close>
  "math_pi = 884279719003555 / 2 ^ 48"

fun f64_add :: "f64 \<Rightarrow> f64 \<Rightarrow> f64" where
  "f64_add (Fin a) (Fin b) = f64_of_real (a + b)"
| "f64_add (Fin a) (Inf t) = Inf t"
| "f64_add (Inf s) (Fin b) = Inf s"
| "f64_add (Inf s) (Inf t) = (if s = t then Inf s else NaN)"
| "f64_add NaN b = NaN"
| "f64_add a NaN = NaN"

fun f64_mul :: "f64 \<Rightarrow> f64 \<Rightarrow> f64" where
  "f64_mul (Fin a) (Fin b) = f64_of_real (a * b)"
| "f64_mul (Fin a) (Inf t) = (if a = 0 then NaN else Inf (t = (0 < a)))"
| "f64_mul (Inf s) (Fin b) = (if b = 0 then NaN else Inf (s = (0 < b)))"
| "f64_mul (Inf s) (Inf t) = Inf (s = t)"
| "f64_mul NaN b = NaN"
| "f64_mul a NaN = NaN"

fun f64_truediv :: "f64 \<Rightarrow> f64 \<Rightarrow> py_error + f64" where
  \<comment> \<open>\<^verbatim>\<open>a / b\<close>: a zero divisor raises whatever the dividend is.\<close>
  "f64_truediv a (Fin b) =
     (if b = 0 then Inl ZeroDivisionError
      else case a of
             Fin av \<Rightarrow> Inr (f64_of_real (av / b))
           | Inf s \<Rightarrow> Inr (Inf (s = (0 < b)))
           | NaN \<Rightarrow> Inr NaN)"
| "f64_truediv a (Inf t) = (case a of Fin av \<Rightarrow> Inr (Fin 0) | Inf s \<Rightarrow> Inr NaN | NaN \<Rightarrow> Inr NaN)"
| "f64_truediv a NaN = Inr NaN"

fun f64_pow :: "f64 \<Rightarrow> nat \<Rightarrow> py_error + f64" where
  \<comment> \<open>\<^verbatim>\<open>a ** n\<close> for a float and an integer literal: a finite base whose power is
      infinite raises OverflowError, a power that underflows is zero.\<close>
  "f64_pow (Fin a) n =
     (case f64_of_real (a ^ n) of
        Fin w \<Rightarrow> Inr (Fin w)
      | Inf s \<Rightarrow> Inl OverflowError
      | NaN \<Rightarrow> Inr NaN)"
| "f64_pow (Inf s) n = Inr (if n = 0 then Fin 1 else Inf (s \<or> even n))"
| "f64_pow NaN n = Inr (if n = 0 then Fin 1 else NaN)"

fun math_sqrt64 :: "f64 \<Rightarrow> py_error + f64" where
  "math_sqrt64 (Fin a) = (if a < 0 then Inl ValueError else Inr (f64_of_real (sqrt a)))"
| "math_sqrt64 (Inf s) = (if s then Inr (Inf True) else Inl ValueError)"
| "math_sqrt64 NaN = Inr NaN"

fun math_sin64 :: "f64 \<Rightarrow> py_error + f64" where
  "math_sin64 (Fin a) = Inr (f64_of_real (sin a))"
| "math_sin64 (Inf s) = Inl ValueError"
| "math_sin64 NaN = Inr NaN"

definition and_then :: "py_error + 'a \<Rightarrow> ('a \<Rightarrow> py_error + 'b) \<Rightarrow> py_error + 'b" where
  \<comment> \<open>Sequencing: an exception skips what follows.\<close>
  "and_then m f = (case m of Inl e \<Rightarrow> Inl e | Inr v \<Rightarrow> f v)"

definition f64_diag_length :: "f64 \<Rightarrow> py_error + f64" where
  \<comment> \<open>\<^verbatim>\<open>math.sqrt(r**2 + (math.sqrt(2)*r)**2)\<close>, operands left to right.\<close>
  "f64_diag_length rv =
     and_then (f64_pow rv 2) (\<lambda>p.
     and_then (math_sqrt64 (Fin 2)) (\<lambda>s.
     and_then (f64_pow (f64_mul s rv) 2) (\<lambda>q.
     math_sqrt64 (f64_add p q))))"

definition f64_sphere_radius :: "f64 \<Rightarrow> py_error + f64" where
  \<comment> \<open>\<^verbatim>\<open>diag_length / 2\<close>\<close>
  "f64_sphere_radius d = f64_truediv d (Fin 2)"

definition f64_sphere_volume :: "f64 \<Rightarrow> py_error + f64" where
  \<comment> \<open>\<^verbatim>\<open>(4/3) * math.pi * sphere_radius**3\<close>, that is
      \<^verbatim>\<open>((4/3) * math.pi) * (sphere_radius**3)\<close>.\<close>
  "f64_sphere_volume \<rho> =
     and_then (f64_truediv (Fin 4) (Fin 3)) (\<lambda>c.
     and_then (f64_pow \<rho> 3) (\<lambda>p.
     Inr (f64_mul (f64_mul c (Fin math_pi)) p)))"

definition f64_x :: "f64 \<Rightarrow> py_error + f64" where
  \<comment> \<open>\<^verbatim>\<open>r * math.sin(math.pi / 3)\<close>\<close>
  "f64_x rv =
     and_then (f64_truediv (Fin math_pi) (Fin 3)) (\<lambda>t.
     and_then (math_sin64 t) (\<lambda>sn.
     Inr (f64_mul rv sn)))"

definition f64_sin_pi_3 :: "f64 \<Rightarrow> f64 \<Rightarrow> py_error + f64" where
  \<comment> \<open>\<^verbatim>\<open>sphere_volume / (math.pi * x**3)\<close>\<close>
  "f64_sin_pi_3 vol xv =
     and_then (f64_pow xv 3) (\<lambda>p. f64_truediv vol (f64_mul (Fin math_pi) p))"

definition f64_first_three :: "f64 \<Rightarrow> py_error + f64 \<times> f64 \<times> f64" where
  \<comment> \<open>Lines 27 to 35: diagonal, radius and volume.\<close>
  "f64_first_three rv =
     and_then (f64_diag_length rv) (\<lambda>d.
     and_then (f64_sphere_radius d) (\<lambda>\<rho>.
     and_then (f64_sphere_volume \<rho>) (\<lambda>vol.
     Inr (d, \<rho>, vol))))"

definition f64_evaluate :: "f64 \<Rightarrow> py_error + f64 \<times> f64 \<times> f64 \<times> f64" where
  \<comment> \<open>Lines 27 to 40: the four outputs, or the first exception.\<close>
  "f64_evaluate rv =
     and_then (f64_first_three rv) (\<lambda>(d, \<rho>, vol).
     and_then (f64_x rv) (\<lambda>xv.
     and_then (f64_sin_pi_3 vol xv) (\<lambda>q.
     Inr (d, \<rho>, vol, q))))"

text \<open>
  For the error analysis: a value \<open>v\<close> is within \<open>k\<close> roundings of \<open>w\<close> when its
  magnitude lies between \<open>w * (1 - 1 / 2 ^ 53) ^ k\<close> and \<open>w * (1 + 1 / 2 ^ 53) ^ k\<close>.
\<close>

definition f64_lo :: real where "f64_lo = 1 - 1 / 2 ^ 53"

definition f64_hi :: real where "f64_hi = 1 + 1 / 2 ^ 53"

definition rel_within :: "nat \<Rightarrow> real \<Rightarrow> real \<Rightarrow> bool" where
  "rel_within k v w = (w * f64_lo ^ k \<le> \<bar>v\<bar> \<and> \<bar>v\<bar> \<le> w * f64_hi ^ k)"

section \<open>Facts about the steps\<close>

lemma diag_arg_eq: "a\<^sup>2 + (sqrt 2 * a)\<^sup>2 = 3 * a\<^sup>2" for a :: real
  by (simp add: power_mult_distrib)

lemma step1_eq: "step1 s = Inr (s\<lparr>diag_length := \<bar>r s\<bar> * sqrt 3\<rparr>)"
proof -
  have "sqrt (3 * (r s)\<^sup>2) = \<bar>r s\<bar> * sqrt 3"
    by (simp add: real_sqrt_mult)
  then show ?thesis
    by (simp add: step1_def math_sqrt_def diag_arg_eq)
qed

lemma cube_sqrt3: "(sqrt 3) ^ 3 = 3 * sqrt 3"
  by (simp add: power3_eq_cube)

lemma evaluate_unfold:
  "evaluate a s =
     (if a = 0 then Inl ZeroDivisionError
      else Inr (s\<lparr>r := a,
                   diag_length := \<bar>a\<bar> * sqrt 3,
                   sphere_radius := \<bar>a\<bar> * sqrt 3 / 2,
                   sphere_volume := (4 / 3) * pi * (\<bar>a\<bar> * sqrt 3 / 2) ^ 3,
                   x := PyFloat (a * sin (pi / 3)),
                   sin_pi_3 := (4 / 3) * pi * (\<bar>a\<bar> * sqrt 3 / 2) ^ 3 / (pi * (a * sin (pi / 3)) ^ 3)\<rparr>))"
  by (simp add: evaluate_def pipeline_def step1_eq step2_def step3_def step4_def truediv_def
      Let_def sin_60)

lemma ratio_pos:
  assumes "0 < a"
  shows "(4 / 3) * pi * (\<bar>a\<bar> * sqrt 3 / 2) ^ 3 / (pi * (a * sin (pi / 3)) ^ 3) = 4 / 3"
proof -
  have "(a * sqrt 3 / 2) ^ 3 \<noteq> 0" using assms by simp
  then show ?thesis using assms by (simp add: sin_60)
qed

lemma ratio_neg:
  assumes "a < 0"
  shows "(4 / 3) * pi * (\<bar>a\<bar> * sqrt 3 / 2) ^ 3 / (pi * (a * sin (pi / 3)) ^ 3) = - (4 / 3)"
proof -
  have nz: "(a * sqrt 3 / 2) ^ 3 \<noteq> 0" using assms by simp
  have "(\<bar>a\<bar> * sqrt 3 / 2) ^ 3 = - ((a * sqrt 3 / 2) ^ 3)"
    using assms by (simp add: power3_eq_cube)
  then show ?thesis using nz by (simp add: sin_60)
qed

lemma evaluate_pos:
  assumes "0 < a"
  shows "evaluate a s =
     Inr (s\<lparr>r := a, diag_length := a * sqrt 3, sphere_radius := a * sqrt 3 / 2,
            sphere_volume := (4 / 3) * pi * (a * sqrt 3 / 2) ^ 3,
            x := PyFloat (a * sqrt 3 / 2), sin_pi_3 := 4 / 3\<rparr>)"
  using assms ratio_pos[OF assms] by (simp add: evaluate_unfold sin_60)

lemma evaluate_neg:
  assumes "a < 0"
  shows "evaluate a s =
     Inr (s\<lparr>r := a, diag_length := - a * sqrt 3, sphere_radius := - a * sqrt 3 / 2,
            sphere_volume := (4 / 3) * pi * (- a * sqrt 3 / 2) ^ 3,
            x := PyFloat (a * sqrt 3 / 2), sin_pi_3 := - (4 / 3)\<rparr>)"
  using assms ratio_neg[OF assms] by (simp add: evaluate_unfold sin_60)

lemma evaluate_zero: "evaluate 0 s = Inl ZeroDivisionError"
  by (simp add: evaluate_unfold)

lemma evaluate_after_numpy: "evaluate a (visualise_numpy s) = evaluate a (visualise_plotly s)"
  by (simp add: evaluate_unfold visualise_numpy_def visualise_plotly_def)

section \<open>Bounds on the constants\<close>

lemma arctan_partial_sums:
  fixes y :: real
  assumes "0 < y" "y \<le> 1"
  shows "(\<Sum>i<2*n. (- 1) ^ i * (1 / real (i * 2 + 1) * y ^ (i * 2 + 1))) \<le> arctan y"
    and "arctan y \<le> (\<Sum>i<2*n+1. (- 1) ^ i * (1 / real (i * 2 + 1) * y ^ (i * 2 + 1)))"
proof -
  have ay: "\<bar>y\<bar> \<le> 1" using assms by simp
  have pos: "0 < 1 / real (0 * 2 + 1) * y ^ (0 * 2 + 1)" using assms by simp
  from summable_Leibniz(2)[OF zeroseq_arctan_series[OF ay] monoseq_arctan_series[OF ay]] pos
  have "\<forall>n. (\<Sum>i. (- 1) ^ i * (1 / real (i * 2 + 1) * y ^ (i * 2 + 1)))
          \<in> {\<Sum>i<2*n. (- 1) ^ i * (1 / real (i * 2 + 1) * y ^ (i * 2 + 1)) ..
              \<Sum>i<2*n+1. (- 1) ^ i * (1 / real (i * 2 + 1) * y ^ (i * 2 + 1))}"
    by blast
  then have "arctan y \<in> {\<Sum>i<2*n. (- 1) ^ i * (1 / real (i * 2 + 1) * y ^ (i * 2 + 1)) ..
              \<Sum>i<2*n+1. (- 1) ^ i * (1 / real (i * 2 + 1) * y ^ (i * 2 + 1))}"
    unfolding arctan_series[OF ay] by blast
  then show "(\<Sum>i<2*n. (- 1) ^ i * (1 / real (i * 2 + 1) * y ^ (i * 2 + 1))) \<le> arctan y"
    and "arctan y \<le> (\<Sum>i<2*n+1. (- 1) ^ i * (1 / real (i * 2 + 1) * y ^ (i * 2 + 1)))"
    by simp_all
qed

lemma arctan_fifth_bounds:
  "(1973955597 / 10000000000 :: real) \<le> arctan (1 / 5)"
  "arctan (1 / 5) \<le> (1973955599 / 10000000000 :: real)"
  using arctan_partial_sums(1)[of "1/5" 3] arctan_partial_sums(2)[of "1/5" 3]
  by (simp_all add: lessThan_nat_numeral lessThan_Suc eval_nat_numeral)

lemma arctan_239_bounds:
  "(41840760 / 10000000000 :: real) \<le> arctan (1 / 239)"
  "arctan (1 / 239) \<le> (41840761 / 10000000000 :: real)"
  using arctan_partial_sums(1)[of "1/239" 1] arctan_partial_sums(2)[of "1/239" 1]
  by (simp_all add: lessThan_nat_numeral lessThan_Suc eval_nat_numeral)

lemma pi_bounds: "3.1415926 < pi" "pi < 3.1415927"
proof -
  have "pi = 16 * arctan (1 / 5) - 4 * arctan (1 / 239)"
    using machin by simp
  then show "3.1415926 < pi" "pi < 3.1415927"
    using arctan_fifth_bounds arctan_239_bounds by simp_all
qed

lemma sqrt3_bounds: "1.7320508 < sqrt 3" "sqrt 3 < 1.7320509"
  by (rule real_less_rsqrt, simp add: power2_eq_square)
     (rule real_less_lsqrt, simp_all add: power2_eq_square)

lemma arctan_fifth_fine:
  "(1973955598498807582406 / 10 ^ 22 :: real) \<le> arctan (1 / 5)"
  "arctan (1 / 5) \<le> (1973955598498807583749 / 10 ^ 22 :: real)"
  using arctan_partial_sums(1)[of "1/5" 6] arctan_partial_sums(2)[of "1/5" 6]
  by (simp_all add: lessThan_nat_numeral lessThan_Suc eval_nat_numeral)

lemma arctan_239_fine:
  "(41840760020747238644 / 10 ^ 22 :: real) \<le> arctan (1 / 239)"
  "arctan (1 / 239) \<le> (41840760020747238646 / 10 ^ 22 :: real)"
  using arctan_partial_sums(1)[of "1/239" 2] arctan_partial_sums(2)[of "1/239" 2]
  by (simp_all add: lessThan_nat_numeral lessThan_Suc eval_nat_numeral)

lemma pi_fine: "314159265358979323 / 10 ^ 17 \<le> pi" "pi \<le> 314159265358979324 / 10 ^ 17"
proof -
  have "pi = 16 * arctan (1 / 5) - 4 * arctan (1 / 239)"
    using machin by simp
  then show "314159265358979323 / 10 ^ 17 \<le> pi" "pi \<le> 314159265358979324 / 10 ^ 17"
    using arctan_fifth_fine arctan_239_fine by simp_all
qed

section \<open>What the scripts print\<close>

lemma fmt4_unique:
  "real_of_int k - 1 / 2 \<le> v * 10000 \<Longrightarrow> v * 10000 < real_of_int k + 1 / 2 \<Longrightarrow> fmt4 v = k"
  unfolding fmt4_def by (rule round_unique) simp_all

lemma pi_sqrt3_bounds: "5.4413979 < pi * sqrt 3" "pi * sqrt 3 < 5.4413985"
proof -
  have "3.1415926 * 1.7320508 < pi * sqrt 3"
    by (rule mult_strict_mono) (use pi_bounds(1) sqrt3_bounds(1) in simp_all)
  then show "5.4413979 < pi * sqrt 3" by simp
  have "pi * sqrt 3 < 3.1415927 * 1.7320509"
    by (rule mult_strict_mono) (use pi_bounds(2) sqrt3_bounds(2) in simp_all)
  then show "pi * sqrt 3 < 5.4413985" by simp
qed

lemma evaluate_pos_fields:
  assumes "0 < a"
  obtains s' where "evaluate a s = Inr s'" "r s' = a"
    "diag_length s' = a * sqrt 3" "sphere_radius s' = a * sqrt 3 / 2"
    "sphere_volume s' = pi * sqrt 3 * (a ^ 3 / 2)" "sin_pi_3 s' = 4 / 3"
    "stdout s' = stdout s"
proof -
  have "(4 / 3) * pi * (a * sqrt 3 / 2) ^ 3 = pi * sqrt 3 * (a ^ 3 / 2)"
    by (simp add: power_mult_distrib power_divide cube_sqrt3)
  then show thesis
    using that evaluate_pos[OF assms, of s] by simp
qed

lemma fmt4_sqrt3_multiples:
  "fmt4 (1 * sqrt 3) = 17321" "fmt4 (2 * sqrt 3) = 34641" "fmt4 (3 * sqrt 3) = 51962"
  "fmt4 (1 * sqrt 3 / 2) = 8660" "fmt4 (2 * sqrt 3 / 2) = 17321" "fmt4 (3 * sqrt 3 / 2) = 25981"
  using sqrt3_bounds by (auto intro!: fmt4_unique)

lemma fmt4_volumes:
  "fmt4 (pi * sqrt 3 * (1 ^ 3 / 2)) = 27207"
  "fmt4 (pi * sqrt 3 * (2 ^ 3 / 2)) = 217656"
  "fmt4 (pi * sqrt 3 * (3 ^ 3 / 2)) = 734589"
  using pi_sqrt3_bounds by (auto intro!: fmt4_unique)

lemma fmt4_four_thirds: "fmt4 (4 / 3) = 13333"
  by (auto intro!: fmt4_unique)

lemma fmt4_sin_60: "fmt4 (sin (pi / 3)) = 8660"
  using fmt4_sqrt3_multiples(4) by (simp add: sin_60)

lemma first_run_is_report: "first_run a s = map_sum id report (evaluate a s)"
  by (simp add: first_run_def evaluate_unfold step1_eq step2_def step3_def step4_def
      truediv_def report_def emit_def Let_def sin_60)

lemma example_is_report:
  "example n a s = map_sum id (\<lambda>s'. report (emit (ExampleLine n (r s')) s')) (evaluate a s)"
  by (simp add: example_def split: sum.split)

lemma report_stdout:
  "stdout (report s) =
     stdout s @ [DiagonalLine (fmt4 (diag_length s)), RadiusLine (fmt4 (sphere_radius s)),
                 VolumeLine (fmt4 (sphere_volume s)), SinLine (fmt4 (sin_pi_3 s))]"
  by (simp add: report_def emit_def)

lemma first_run_lines:
  assumes "0 < a"
    and "fmt4 (a * sqrt 3) = d" and "fmt4 (a * sqrt 3 / 2) = h"
    and "fmt4 (pi * sqrt 3 * (a ^ 3 / 2)) = v"
  obtains s' where "first_run a s = Inr s'"
    "stdout s' = stdout s @ [DiagonalLine d, RadiusLine h, VolumeLine v, SinLine 13333]"
proof -
  obtain t where t: "evaluate a s = Inr t" "diag_length t = a * sqrt 3"
    "sphere_radius t = a * sqrt 3 / 2" "sphere_volume t = pi * sqrt 3 * (a ^ 3 / 2)"
    "sin_pi_3 t = 4 / 3" "stdout t = stdout s"
    using evaluate_pos_fields[OF assms(1), of s] by metis
  have "first_run a s = Inr (report t)"
    by (simp only: first_run_is_report t(1) map_sum.simps id_apply)
  moreover have "stdout (report t) = stdout s @ [DiagonalLine d, RadiusLine h, VolumeLine v, SinLine 13333]"
    by (simp only: report_stdout t assms fmt4_four_thirds)
  ultimately show thesis using that by blast
qed

lemma example_lines:
  assumes "0 < a"
    and "fmt4 (a * sqrt 3) = d" and "fmt4 (a * sqrt 3 / 2) = h"
    and "fmt4 (pi * sqrt 3 * (a ^ 3 / 2)) = v"
  obtains s' where "example n a s = Inr s'"
    "stdout s' = stdout s @ [ExampleLine n a, DiagonalLine d, RadiusLine h, VolumeLine v, SinLine 13333]"
proof -
  obtain t where t: "evaluate a s = Inr t" "r t = a" "diag_length t = a * sqrt 3"
    "sphere_radius t = a * sqrt 3 / 2" "sphere_volume t = pi * sqrt 3 * (a ^ 3 / 2)"
    "sin_pi_3 t = 4 / 3" "stdout t = stdout s"
    using evaluate_pos_fields[OF assms(1), of s] by metis
  let ?u = "emit (ExampleLine n (r t)) t"
  have u: "diag_length ?u = a * sqrt 3" "sphere_radius ?u = a * sqrt 3 / 2"
    "sphere_volume ?u = pi * sqrt 3 * (a ^ 3 / 2)" "sin_pi_3 ?u = 4 / 3"
    "stdout ?u = stdout s @ [ExampleLine n a]"
    using t by (simp_all add: emit_def)
  have "example n a s = Inr (report ?u)"
    by (simp only: example_is_report t(1) map_sum.simps id_apply)
  moreover have "stdout (report ?u) =
      stdout s @ [ExampleLine n a, DiagonalLine d, RadiusLine h, VolumeLine v, SinLine 13333]"
    by (simp only: report_stdout u assms fmt4_four_thirds append_assoc append_Cons append_Nil)
  ultimately show thesis using that by blast
qed

lemma special_angles_prints:
  "map_sum id stdout (special_angles (s\<lparr>stdout := []\<rparr>)) =
     Inr [DiagonalLine 17321, RadiusLine 8660, VolumeLine 27207, SinLine 13333,
          ExampleLine 1 2, DiagonalLine 34641, RadiusLine 17321, VolumeLine 217656, SinLine 13333,
          ExampleLine 2 3, DiagonalLine 51962, RadiusLine 25981, VolumeLine 734589, SinLine 13333]"
proof -
  obtain s1 where s1: "first_run 1 (s\<lparr>stdout := []\<rparr>) = Inr s1"
    "stdout s1 = stdout (s\<lparr>stdout := []\<rparr>) @
       [DiagonalLine 17321, RadiusLine 8660, VolumeLine 27207, SinLine 13333]"
    using first_run_lines[OF zero_less_one fmt4_sqrt3_multiples(1) fmt4_sqrt3_multiples(4)
        fmt4_volumes(1)] by metis
  have two: "(0 :: real) < 2" and three: "(0 :: real) < 3" by simp_all
  obtain s2 where s2: "example 1 2 (visualise_plotly s1) = Inr s2"
    "stdout s2 = stdout (visualise_plotly s1) @
       [ExampleLine 1 2, DiagonalLine 34641, RadiusLine 17321, VolumeLine 217656, SinLine 13333]"
    using example_lines[OF two fmt4_sqrt3_multiples(2) fmt4_sqrt3_multiples(5) fmt4_volumes(2)]
    by metis
  obtain s3 where s3: "example 2 3 s2 = Inr s3"
    "stdout s3 = stdout s2 @
       [ExampleLine 2 3, DiagonalLine 51962, RadiusLine 25981, VolumeLine 734589, SinLine 13333]"
    using example_lines[OF three fmt4_sqrt3_multiples(3) fmt4_sqrt3_multiples(6) fmt4_volumes(3)]
    by metis
  show ?thesis
    using s1 s2 s3 by (simp add: special_angles_def script_def visualise_plotly_def)
qed

section \<open>Rounding to the binary64 grid\<close>

lemma rne_error: "\<bar>of_int (rne q) - q\<bar> \<le> 1 / 2"
  unfolding rne_def Let_def by (auto simp: abs_if) linarith+

lemma rne_small: "\<bar>q\<bar> < 1 / 2 \<Longrightarrow> rne q = 0"
proof -
  assume a: "\<bar>q\<bar> < 1 / 2"
  have "\<bar>of_int (rne q) - q\<bar> \<le> 1 / 2" by (rule rne_error)
  with a have "\<bar>real_of_int (rne q)\<bar> < 1" by linarith
  then show ?thesis by linarith
qed

lemma f64_ulp_pos: "0 < f64_ulp v"
  by (simp add: f64_ulp_def)

lemma f64_grid_underflow:
  assumes "\<bar>v\<bar> < 1 / 2 ^ 1075"
  shows "f64_grid v = 0"
proof (cases "v = 0")
  case True then show ?thesis by (simp add: f64_grid_def)
next
  case False
  then have pos: "0 < \<bar>v\<bar>" by simp
  have "\<bar>v\<bar> < 2 powr (- 1075)"
    using assms by (simp add: powr_minus_divide)
  then have "log 2 \<bar>v\<bar> < - 1075"
    using pos by (simp add: log_less_iff)
  then have "\<lfloor>log 2 \<bar>v\<bar>\<rfloor> < - 1022" by linarith
  then have e: "f64_exponent v = - 1022" by (simp add: f64_exponent_def)
  have u: "f64_ulp v = 1 / 2 ^ 1074"
    by (simp add: f64_ulp_def e powr_minus_divide)
  have "\<bar>v / f64_ulp v\<bar> = \<bar>v\<bar> * 2 ^ 1074" by (simp add: u)
  also have "\<dots> < 1 / 2 ^ 1075 * 2 ^ 1074"
    using assms by (intro mult_strict_right_mono) simp_all
  also have "\<dots> = 1 / 2" by simp
  finally have "rne (v / f64_ulp v) = 0" by (rule rne_small)
  then show ?thesis by (simp add: f64_grid_def)
qed

lemma f64_grid_error:
  assumes "1 / 2 ^ 1022 \<le> \<bar>v\<bar>"
  shows "\<bar>f64_grid v - v\<bar> \<le> \<bar>v\<bar> / 2 ^ 53"
proof -
  have pos: "0 < \<bar>v\<bar>" using assms by (smt (verit) zero_less_power divide_pos_pos)
  then have nz: "v \<noteq> 0" by simp
  have "2 powr (- 1022) \<le> \<bar>v\<bar>"
    using assms by (simp add: powr_minus_divide)
  then have "- 1022 \<le> log 2 \<bar>v\<bar>"
    using pos by (simp add: le_log_iff)
  then have "- 1022 \<le> \<lfloor>log 2 \<bar>v\<bar>\<rfloor>" by linarith
  then have e: "f64_exponent v = \<lfloor>log 2 \<bar>v\<bar>\<rfloor>" by (simp add: f64_exponent_def)
  have "of_int \<lfloor>log 2 \<bar>v\<bar>\<rfloor> \<le> log 2 \<bar>v\<bar>" by simp
  then have "2 powr (of_int \<lfloor>log 2 \<bar>v\<bar>\<rfloor>) \<le> \<bar>v\<bar>"
    using le_log_iff[of 2 "\<bar>v\<bar>" "of_int \<lfloor>log 2 \<bar>v\<bar>\<rfloor>"] pos by linarith
  then have le: "2 powr (of_int (f64_exponent v)) \<le> \<bar>v\<bar>"
    by (simp only: e)
  have u: "f64_ulp v = 2 powr (of_int (f64_exponent v)) / 2 ^ 52"
    by (simp add: f64_ulp_def powr_diff)
  have "\<bar>f64_grid v - v\<bar> = \<bar>of_int (rne (v / f64_ulp v)) - v / f64_ulp v\<bar> * f64_ulp v"
  proof -
    have "f64_grid v - v = (of_int (rne (v / f64_ulp v)) - v / f64_ulp v) * f64_ulp v"
      using f64_ulp_pos[of v] nz by (simp add: f64_grid_def field_simps)
    then show ?thesis using f64_ulp_pos[of v] by (simp add: abs_mult)
  qed
  also have "\<dots> \<le> 1 / 2 * f64_ulp v"
    using f64_ulp_pos[of v] rne_error by (intro mult_right_mono) simp_all
  also have "\<dots> = 2 powr (of_int (f64_exponent v)) / 2 ^ 53" by (simp add: u)
  also have "\<dots> \<le> \<bar>v\<bar> / 2 ^ 53" using le by (simp add: divide_right_mono)
  finally show ?thesis .
qed

lemma and_then_simps [simp]:
  "and_then (Inl e) f = Inl e" "and_then (Inr v) f = f v"
  by (simp_all add: and_then_def)

lemma f64_grid_zero [simp]: "f64_grid 0 = 0"
  by (simp add: f64_grid_def)

lemma rne_nonneg: "0 \<le> q \<Longrightarrow> 0 \<le> rne q"
  unfolding rne_def Let_def by (auto simp: zero_le_floor) 

lemma f64_grid_nonneg: "0 \<le> v \<Longrightarrow> 0 \<le> f64_grid v"
  using f64_ulp_pos[of v] by (simp add: f64_grid_def rne_nonneg)

lemma f64_ulp_le:
  assumes nz: "v \<noteq> 0"
  shows "f64_ulp v \<le> \<bar>v\<bar> / 2 ^ 52 + 1 / 2 ^ 1074"
proof (cases "1 / 2 ^ 1022 \<le> \<bar>v\<bar>")
  case True
  then have pos: "0 < \<bar>v\<bar>" by (smt (verit) zero_less_power divide_pos_pos)
  have "2 powr (- 1022) \<le> \<bar>v\<bar>"
    using True by (simp add: powr_minus_divide)
  then have "- 1022 \<le> log 2 \<bar>v\<bar>"
    using pos by (simp add: le_log_iff)
  then have "- 1022 \<le> \<lfloor>log 2 \<bar>v\<bar>\<rfloor>" by linarith
  then have e: "f64_exponent v = \<lfloor>log 2 \<bar>v\<bar>\<rfloor>" by (simp add: f64_exponent_def)
  have "of_int \<lfloor>log 2 \<bar>v\<bar>\<rfloor> \<le> log 2 \<bar>v\<bar>" by simp
  then have "2 powr (of_int \<lfloor>log 2 \<bar>v\<bar>\<rfloor>) \<le> \<bar>v\<bar>"
    using le_log_iff[of 2 "\<bar>v\<bar>" "of_int \<lfloor>log 2 \<bar>v\<bar>\<rfloor>"] pos by linarith
  then have le: "2 powr (of_int (f64_exponent v)) \<le> \<bar>v\<bar>"
    by (simp only: e)
  have "f64_ulp v = 2 powr (of_int (f64_exponent v)) / 2 ^ 52"
    by (simp add: f64_ulp_def powr_diff)
  also have "\<dots> \<le> \<bar>v\<bar> / 2 ^ 52" using le by (simp add: divide_right_mono)
  finally show ?thesis by (smt (verit) zero_less_power divide_pos_pos)
next
  case False
  then have lt: "\<bar>v\<bar> < 1 / 2 ^ 1022" by simp
  have pos: "0 < \<bar>v\<bar>" using nz by simp
  have "\<bar>v\<bar> < 2 powr (- 1022)" using lt by (simp add: powr_minus_divide)
  then have "log 2 \<bar>v\<bar> < - 1022" using pos by (simp add: log_less_iff)
  then have "\<lfloor>log 2 \<bar>v\<bar>\<rfloor> \<le> - 1022" by linarith
  then have "f64_exponent v = - 1022" by (simp add: f64_exponent_def)
  then have "f64_ulp v = 1 / 2 ^ 1074"
    by (simp add: f64_ulp_def powr_minus_divide)
  then show ?thesis by simp
qed

lemma f64_grid_error_any: "\<bar>f64_grid v - v\<bar> \<le> \<bar>v\<bar> / 2 ^ 53 + 1 / 2 ^ 1075"
proof (cases "v = 0")
  case True then show ?thesis by simp
next
  case nz: False
  have "\<bar>f64_grid v - v\<bar> = \<bar>of_int (rne (v / f64_ulp v)) - v / f64_ulp v\<bar> * f64_ulp v"
  proof -
    have "f64_grid v - v = (of_int (rne (v / f64_ulp v)) - v / f64_ulp v) * f64_ulp v"
      using f64_ulp_pos[of v] nz by (simp add: f64_grid_def field_simps)
    then show ?thesis using f64_ulp_pos[of v] by (simp add: abs_mult)
  qed
  also have "\<dots> \<le> 1 / 2 * f64_ulp v"
    using f64_ulp_pos[of v] rne_error by (intro mult_right_mono) simp_all
  also have "\<dots> \<le> 1 / 2 * (\<bar>v\<bar> / 2 ^ 52 + 1 / 2 ^ 1074)"
    using f64_ulp_le[OF nz] by simp
  also have "\<dots> = \<bar>v\<bar> / 2 ^ 53 + 1 / 2 ^ 1075" by simp
  finally show ?thesis .
qed

lemma f64_of_real_fin:
  assumes "\<bar>v\<bar> \<le> 2 ^ 1000"
  shows "f64_of_real v = Fin (f64_grid v)"
proof -
  have "\<bar>f64_grid v\<bar> \<le> \<bar>v\<bar> + (\<bar>v\<bar> / 2 ^ 53 + 1 / 2 ^ 1075)"
    using f64_grid_error_any[of v] by linarith
  also have "\<dots> \<le> 2 ^ 1000 + (2 ^ 1000 / 2 ^ 53 + 1 / 2 ^ 1075)"
    using assms by (intro add_mono divide_right_mono) simp_all
  also have "\<dots> \<le> f64_max" by (simp add: f64_max_def)
  finally have "\<bar>f64_grid v\<bar> \<le> f64_max" .
  then have "\<not> f64_max < f64_grid v" "\<not> f64_grid v < - f64_max" by linarith+
  then show ?thesis by (simp add: f64_of_real_def Let_def)
qed

section \<open>Relative error of a chain of operations\<close>

lemma lo_hi_facts:
  "0 \<le> f64_lo" "f64_lo \<le> 1" "1 \<le> f64_hi" "0 \<le> f64_hi"
  by (simp_all add: f64_lo_def f64_hi_def)

lemma lo_hi_pow: "0 \<le> f64_lo ^ k" "0 \<le> f64_hi ^ k"
  using lo_hi_facts by simp_all

lemma rw_refl: "0 \<le> w \<Longrightarrow> rel_within 0 w w"
  by (simp add: rel_within_def)

lemma rw_weaken:
  assumes "rel_within j v w" "j \<le> k" "0 \<le> w"
  shows "rel_within k v w"
proof -
  have "f64_lo ^ k \<le> f64_lo ^ j"
    using assms(2) lo_hi_facts by (intro power_decreasing)
  then have "w * f64_lo ^ k \<le> w * f64_lo ^ j"
    using assms(3) by (intro mult_left_mono)
  moreover have "f64_hi ^ j \<le> f64_hi ^ k"
    using assms(2) lo_hi_facts by (intro power_increasing)
  then have "w * f64_hi ^ j \<le> w * f64_hi ^ k"
    using assms(3) by (intro mult_left_mono)
  ultimately show ?thesis
    using assms(1) unfolding rel_within_def by linarith
qed

lemma rw_mult:
  assumes "rel_within j a A" "rel_within k b B" "0 \<le> A" "0 \<le> B"
  shows "rel_within (j + k) (a * b) (A * B)"
proof -
  have l: "0 \<le> A * f64_lo ^ j" "0 \<le> B * f64_lo ^ k" "0 \<le> A * f64_hi ^ j"
    using assms(3,4) lo_hi_pow by simp_all
  have a: "A * f64_lo ^ j \<le> \<bar>a\<bar>" "\<bar>a\<bar> \<le> A * f64_hi ^ j"
    and b: "B * f64_lo ^ k \<le> \<bar>b\<bar>" "\<bar>b\<bar> \<le> B * f64_hi ^ k"
    using assms(1,2) unfolding rel_within_def by simp_all
  have "(A * f64_lo ^ j) * (B * f64_lo ^ k) \<le> \<bar>a\<bar> * \<bar>b\<bar>"
    using a(1) b(1) l by (intro mult_mono) simp_all
  moreover have "\<bar>a\<bar> * \<bar>b\<bar> \<le> (A * f64_hi ^ j) * (B * f64_hi ^ k)"
    using a(2) b(2) l by (intro mult_mono) simp_all
  ultimately show ?thesis
    unfolding rel_within_def by (simp add: abs_mult power_add mult_ac)
qed

lemma rw_power:
  assumes "rel_within j a A" "0 \<le> A"
  shows "rel_within (j * n) (a ^ n) (A ^ n)"
proof -
  have "0 \<le> A * f64_lo ^ j" using assms(2) lo_hi_pow by simp
  then have "(A * f64_lo ^ j) ^ n \<le> \<bar>a\<bar> ^ n"
    using assms(1) unfolding rel_within_def by (intro power_mono) simp_all
  moreover have "\<bar>a\<bar> ^ n \<le> (A * f64_hi ^ j) ^ n"
    using assms(1) unfolding rel_within_def by (intro power_mono) simp_all
  ultimately show ?thesis
    unfolding rel_within_def by (simp add: power_abs power_mult_distrib power_mult)
qed

lemma rw_add:
  assumes "rel_within k a A" "rel_within k b B" "0 \<le> a" "0 \<le> b"
  shows "rel_within k (a + b) (A + B)"
  using assms unfolding rel_within_def by (simp add: distrib_right)

lemma sqrt_even_power: "0 \<le> l \<Longrightarrow> sqrt (l ^ (2 * k)) = l ^ k"
  by (simp add: power_mult real_sqrt_power)

lemma rw_sqrt:
  assumes "rel_within (2 * k) v w" "0 \<le> v" "0 \<le> w"
  shows "rel_within k (sqrt v) (sqrt w)"
proof -
  have "sqrt (w * f64_lo ^ (2 * k)) \<le> sqrt v" "sqrt v \<le> sqrt (w * f64_hi ^ (2 * k))"
    using assms(1,2) unfolding rel_within_def by simp_all
  moreover have "sqrt (w * f64_lo ^ (2 * k)) = sqrt w * f64_lo ^ k"
    using lo_hi_facts by (simp only: real_sqrt_mult sqrt_even_power)
  moreover have "sqrt (w * f64_hi ^ (2 * k)) = sqrt w * f64_hi ^ k"
    using lo_hi_facts by (simp only: real_sqrt_mult sqrt_even_power)
  ultimately show ?thesis
    using assms(2) unfolding rel_within_def by simp
qed

lemma rw_round:
  assumes "rel_within k v w" "1 / 2 ^ 1022 \<le> \<bar>v\<bar>" "0 \<le> w"
  shows "rel_within (Suc k) (f64_grid v) w"
proof -
  have e: "\<bar>f64_grid v - v\<bar> \<le> \<bar>v\<bar> / 2 ^ 53"
    using assms(2) by (rule f64_grid_error)
  have t: "\<bar>v\<bar> - \<bar>f64_grid v\<bar> \<le> \<bar>f64_grid v - v\<bar>"
    "\<bar>f64_grid v\<bar> - \<bar>v\<bar> \<le> \<bar>f64_grid v - v\<bar>"
    using abs_triangle_ineq2[of v "f64_grid v"] abs_triangle_ineq2[of "f64_grid v" v]
    by (simp_all add: abs_minus_commute)
  have "\<bar>v\<bar> * f64_lo = \<bar>v\<bar> - \<bar>v\<bar> / 2 ^ 53" "\<bar>v\<bar> * f64_hi = \<bar>v\<bar> + \<bar>v\<bar> / 2 ^ 53"
    by (simp_all add: f64_lo_def f64_hi_def algebra_simps)
  then have "\<bar>v\<bar> * f64_lo \<le> \<bar>f64_grid v\<bar>" "\<bar>f64_grid v\<bar> \<le> \<bar>v\<bar> * f64_hi"
    using e t by linarith+
  moreover have "(w * f64_lo ^ k) * f64_lo \<le> \<bar>v\<bar> * f64_lo"
    using assms(1) lo_hi_facts unfolding rel_within_def by (intro mult_right_mono) simp_all
  moreover have "\<bar>v\<bar> * f64_hi \<le> (w * f64_hi ^ k) * f64_hi"
    using assms(1) lo_hi_facts unfolding rel_within_def by (intro mult_right_mono) simp_all
  ultimately show ?thesis
    unfolding rel_within_def by (simp add: mult_ac)
qed

lemma lo_hi_sixteen: "1 - 1 / 10 ^ 9 \<le> f64_lo ^ 16" "f64_hi ^ 16 \<le> 1 + 1 / 10 ^ 9"
  by (simp_all add: f64_lo_def f64_hi_def power_divide)

lemma rw_tolerance:
  assumes "rel_within k v w" "k \<le> 16" "0 \<le> w"
  shows "\<bar>\<bar>v\<bar> - w\<bar> \<le> w / 10 ^ 9"
proof -
  have "rel_within 16 v w" using assms by (rule rw_weaken)
  then have a: "w * f64_lo ^ 16 \<le> \<bar>v\<bar>" "\<bar>v\<bar> \<le> w * f64_hi ^ 16"
    unfolding rel_within_def by simp_all
  have "w * (1 - 1 / 10 ^ 9) \<le> w * f64_lo ^ 16"
    using lo_hi_sixteen(1) assms(3) by (intro mult_left_mono)
  moreover have "w * f64_hi ^ 16 \<le> w * (1 + 1 / 10 ^ 9)"
    using lo_hi_sixteen(2) assms(3) by (intro mult_left_mono)
  ultimately have "w * (1 - 1 / 10 ^ 9) \<le> \<bar>v\<bar>" "\<bar>v\<bar> \<le> w * (1 + 1 / 10 ^ 9)"
    using a by linarith+
  then have "\<bar>v\<bar> - w \<le> w / 10 ^ 9" "- (\<bar>v\<bar> - w) \<le> w / 10 ^ 9"
    by (simp_all add: algebra_simps)
  then show ?thesis by (rule abs_leI)
qed

lemma rw_coarse:
  assumes "rel_within k v w" "k \<le> 16" "0 \<le> w"
  shows "w / 2 \<le> \<bar>v\<bar>" "\<bar>v\<bar> \<le> 2 * w"
proof -
  have t: "\<bar>\<bar>v\<bar> - w\<bar> \<le> w / 10 ^ 9" using assms by (rule rw_tolerance)
  have "\<bar>v\<bar> - w \<le> w / 10 ^ 9" "- (\<bar>v\<bar> - w) \<le> w / 10 ^ 9"
    using abs_le_D1[OF t] abs_le_D2[OF t] by simp_all
  then show "w / 2 \<le> \<bar>v\<bar>" "\<bar>v\<bar> \<le> 2 * w"
    using assms(3) by simp_all
qed

lemma f64_of_real_rel:
  assumes "rel_within k v w" "k < n" "n \<le> 16" "1 / 2 ^ 1020 \<le> w" "w \<le> 2 ^ 999"
  shows "f64_of_real v = Fin (f64_grid v)" "rel_within n (f64_grid v) w"
    "f64_grid v \<noteq> 0"
proof -
  have w0: "0 \<le> w" using assms(4) by (smt (verit) zero_less_power divide_pos_pos)
  have k16: "k \<le> 16" using assms(2,3) by simp
  have c: "w / 2 \<le> \<bar>v\<bar>" "\<bar>v\<bar> \<le> 2 * w"
    using rw_coarse[OF assms(1) k16 w0] by simp_all
  have "\<bar>v\<bar> \<le> 2 ^ 1000" using c(2) assms(5) by simp
  then show "f64_of_real v = Fin (f64_grid v)" by (rule f64_of_real_fin)
  have n: "1 / 2 ^ 1022 \<le> \<bar>v\<bar>" using c(1) assms(4) by simp
  then have "rel_within (Suc k) (f64_grid v) w"
    using assms(1) w0 by (intro rw_round)
  moreover have "Suc k \<le> n" using assms(2) by simp
  ultimately show r: "rel_within n (f64_grid v) w"
    using w0 by (rule rw_weaken)
  from rw_coarse(1)[OF r assms(3) w0] assms(4) have "0 < \<bar>f64_grid v\<bar>"
    by (smt (verit) zero_less_power divide_pos_pos)
  then show "f64_grid v \<noteq> 0" by simp
qed

lemma rw_mult_to:
  assumes "rel_within j a A" "rel_within k b B" "0 \<le> A" "0 \<le> B" "j + k = n"
  shows "rel_within n (a * b) (A * B)"
  using rw_mult[OF assms(1-4)] assms(5) by simp

lemma rw_half: "rel_within k v w \<Longrightarrow> rel_within k (v / 2) (w / 2)"
  unfolding rel_within_def by simp

lemma math_pi_rel: "rel_within 1 math_pi pi"
proof -
  have "pi * f64_lo \<le> 314159265358979324 / 10 ^ 17 * f64_lo"
    using pi_fine(2) lo_hi_facts(1) by (rule mult_right_mono)
  also have "\<dots> \<le> math_pi" by (simp add: f64_lo_def math_pi_def)
  finally have l: "pi * f64_lo \<le> math_pi" .
  have "math_pi \<le> 314159265358979323 / 10 ^ 17" by (simp add: math_pi_def)
  also have "\<dots> \<le> pi" by (rule pi_fine(1))
  also have "\<dots> \<le> pi * f64_hi" using lo_hi_facts(3) by simp
  finally have h: "math_pi \<le> pi * f64_hi" .
  have "0 \<le> math_pi" by (simp add: math_pi_def)
  then show ?thesis using l h by (simp add: rel_within_def)
qed

section \<open>The binary64 pipeline inside and outside the normal range\<close>

lemma sqrt_two_three_bounds:
  "1 \<le> sqrt 2" "sqrt 2 \<le> 2" "1 \<le> sqrt 3" "sqrt 3 \<le> 2"
  by (simp_all add: real_le_lsqrt)

lemma rw_abs: "rel_within 0 a \<bar>a\<bar>"
  by (simp add: rel_within_def)

lemma f64_diag_length_rel:
  assumes lo: "1 / 2 ^ 500 \<le> \<bar>a\<bar>" and hi: "\<bar>a\<bar> \<le> 2 ^ 490"
  obtains d where "f64_diag_length (Fin a) = Inr (Fin d)" "0 \<le> d"
    "rel_within 4 d (\<bar>a\<bar> * sqrt 3)"
proof -
  have a0: "0 \<le> \<bar>a\<bar>" by simp
  have sq_lo: "1 / 2 ^ 1000 \<le> \<bar>a\<bar> ^ 2"
    using power_mono[OF lo, of 2] by (simp add: power_divide)
  have sq_hi: "\<bar>a\<bar> ^ 2 \<le> 2 ^ 980"
    using power_mono[OF hi a0, of 2] by simp
  \<comment> \<open>\<open>r**2\<close>\<close>
  define pv where "pv = f64_grid (a ^ 2)"
  have "rel_within 0 (a ^ 2) (\<bar>a\<bar> ^ 2)"
    by (simp add: rel_within_def)
  from f64_of_real_rel(1,2)[OF this, of 1] sq_lo sq_hi
  have p: "f64_of_real (a ^ 2) = Fin pv" "rel_within 1 pv (\<bar>a\<bar> ^ 2)"
    unfolding pv_def by simp_all
  have p0: "0 \<le> pv" unfolding pv_def by (simp add: f64_grid_nonneg)
  \<comment> \<open>\<open>math.sqrt(2)\<close>\<close>
  define sv where "sv = f64_grid (sqrt 2)"
  have "rel_within 0 (sqrt 2) (sqrt 2)" by (simp add: rw_refl)
  from f64_of_real_rel(1,2)[OF this, of 1] sqrt_two_three_bounds
  have s: "f64_of_real (sqrt 2) = Fin sv" "rel_within 1 sv (sqrt 2)"
    unfolding sv_def by simp_all
  \<comment> \<open>\<open>math.sqrt(2) * r\<close>\<close>
  define mv where "mv = f64_grid (sv * a)"
  have "rel_within (1 + 0) (sv * a) (sqrt 2 * \<bar>a\<bar>)"
    by (intro rw_mult s rw_abs) simp_all
  then have m1: "rel_within 1 (sv * a) (sqrt 2 * \<bar>a\<bar>)" by simp
  have "1 / 2 ^ 500 \<le> sqrt 2 * \<bar>a\<bar>"
    using mult_mono[OF sqrt_two_three_bounds(1) lo] by simp
  moreover have "sqrt 2 * \<bar>a\<bar> \<le> 2 * 2 ^ 490"
    using mult_mono[OF sqrt_two_three_bounds(2) hi] by simp
  ultimately have m: "f64_of_real (sv * a) = Fin mv" "rel_within 2 mv (sqrt 2 * \<bar>a\<bar>)"
    using f64_of_real_rel(1,2)[OF m1, of 2] unfolding mv_def by simp_all
  \<comment> \<open>\<open>(math.sqrt(2) * r)**2\<close>\<close>
  define qv where "qv = f64_grid (mv ^ 2)"
  have "rel_within (2 * 2) (mv ^ 2) ((sqrt 2 * \<bar>a\<bar>) ^ 2)"
    using m(2) by (intro rw_power) simp_all
  then have "rel_within 4 (mv ^ 2) (2 * \<bar>a\<bar> ^ 2)"
    by (simp add: power_mult_distrib)
  from f64_of_real_rel(1,2)[OF this, of 5] sq_lo sq_hi
  have q: "f64_of_real (mv ^ 2) = Fin qv" "rel_within 5 qv (2 * \<bar>a\<bar> ^ 2)"
    unfolding qv_def by simp_all
  have q0: "0 \<le> qv" unfolding qv_def by (simp add: f64_grid_nonneg)
  \<comment> \<open>the sum\<close>
  define tv where "tv = f64_grid (pv + qv)"
  have "rel_within 5 pv (\<bar>a\<bar> ^ 2)"
    using p(2) by (rule rw_weaken) simp_all
  then have "rel_within 5 (pv + qv) (\<bar>a\<bar> ^ 2 + 2 * \<bar>a\<bar> ^ 2)"
    using q(2) p0 q0 by (intro rw_add)
  then have "rel_within 5 (pv + qv) (3 * \<bar>a\<bar> ^ 2)"
    by simp
  from f64_of_real_rel(1,2)[OF this, of 6] sq_lo sq_hi
  have t: "f64_of_real (pv + qv) = Fin tv" "rel_within 6 tv (3 * \<bar>a\<bar> ^ 2)"
    unfolding tv_def by simp_all
  have t0: "0 \<le> tv" unfolding tv_def using p0 q0 by (intro f64_grid_nonneg) simp
  \<comment> \<open>the square root\<close>
  define dv where "dv = f64_grid (sqrt tv)"
  have "rel_within (2 * 3) tv (3 * \<bar>a\<bar> ^ 2)" using t(2) by simp
  then have "rel_within 3 (sqrt tv) (sqrt (3 * \<bar>a\<bar> ^ 2))"
    using t0 by (intro rw_sqrt) simp_all
  then have r3: "rel_within 3 (sqrt tv) (\<bar>a\<bar> * sqrt 3)"
    by (simp add: real_sqrt_mult mult.commute)
  have "1 / 2 ^ 500 \<le> \<bar>a\<bar> * sqrt 3"
    using mult_mono[OF lo sqrt_two_three_bounds(3)] by simp
  moreover have "\<bar>a\<bar> * sqrt 3 \<le> 2 ^ 490 * 2"
    using mult_mono[OF hi sqrt_two_three_bounds(4)] by simp
  ultimately have d: "f64_of_real (sqrt tv) = Fin dv" "rel_within 4 dv (\<bar>a\<bar> * sqrt 3)"
    using f64_of_real_rel(1,2)[OF r3, of 4] unfolding dv_def by simp_all
  have d0: "0 \<le> dv" unfolding dv_def using t0 by (intro f64_grid_nonneg) simp
  have e1: "f64_pow (Fin a) 2 = Inr (Fin pv)" by (simp only: f64_pow.simps p f64.case)
  have e2: "math_sqrt64 (Fin 2) = Inr (Fin sv)" by (simp add: s)
  have e3: "f64_mul (Fin sv) (Fin a) = Fin mv" by (simp only: f64_mul.simps m)
  have e4: "f64_pow (Fin mv) 2 = Inr (Fin qv)" by (simp only: f64_pow.simps q f64.case)
  have e5: "f64_add (Fin pv) (Fin qv) = Fin tv" by (simp only: f64_add.simps t)
  have e6: "math_sqrt64 (Fin tv) = Inr (Fin dv)" using t0 by (simp add: d)
  have "f64_diag_length (Fin a) = Inr (Fin dv)"
    by (simp only: f64_diag_length_def e1 e2 e3 e4 e5 e6 and_then_simps)
  then show thesis using that d0 d(2) by blast
qed

lemma f64_sphere_radius_rel:
  assumes lo: "1 / 2 ^ 500 \<le> \<bar>a\<bar>" and hi: "\<bar>a\<bar> \<le> 2 ^ 490"
    and d: "rel_within 4 d (\<bar>a\<bar> * sqrt 3)" "0 \<le> d"
  obtains \<rho> where "f64_sphere_radius (Fin d) = Inr (Fin \<rho>)" "0 < \<rho>"
    "rel_within 5 \<rho> (\<bar>a\<bar> * sqrt 3 / 2)"
proof -
  define rv where "rv = f64_grid (d / 2)"
  have h: "rel_within 4 (d / 2) (\<bar>a\<bar> * sqrt 3 / 2)"
    using d(1) by (rule rw_half)
  have "1 / 2 ^ 500 \<le> \<bar>a\<bar> * sqrt 3"
    using mult_mono[OF lo sqrt_two_three_bounds(3)] by simp
  moreover have "\<bar>a\<bar> * sqrt 3 \<le> 2 ^ 490 * 2"
    using mult_mono[OF hi sqrt_two_three_bounds(4)] by simp
  ultimately have r: "f64_of_real (d / 2) = Fin rv" "rel_within 5 rv (\<bar>a\<bar> * sqrt 3 / 2)"
    "rv \<noteq> 0"
    using f64_of_real_rel[OF h, of 5] unfolding rv_def by simp_all
  have "0 \<le> rv" unfolding rv_def using d(2) by (intro f64_grid_nonneg) simp
  then have "0 < rv" using r(3) by simp
  moreover have "f64_sphere_radius (Fin d) = Inr (Fin rv)"
    by (simp add: f64_sphere_radius_def r(1))
  ultimately show thesis using that r(2) by blast
qed

lemma pi_coarse: "3 \<le> pi" "pi \<le> 4"
  using pi_fine by simp_all

lemma f64_four_thirds_pi:
  obtains wv where "f64_truediv (Fin 4) (Fin 3) = Inr (Fin (f64_grid (4 / 3)))"
    "f64_mul (Fin (f64_grid (4 / 3))) (Fin math_pi) = Fin wv" "0 \<le> wv"
    "rel_within 3 wv (4 / 3 * pi)"
proof -
  define cv where "cv = f64_grid (4 / 3)"
  define wv where "wv = f64_grid (cv * math_pi)"
  have "rel_within 0 (4 / 3) (4 / 3)" by (simp add: rw_refl)
  from f64_of_real_rel(1,2)[OF this, of 1]
  have c: "f64_of_real (4 / 3) = Fin cv" "rel_within 1 cv (4 / 3)"
    unfolding cv_def by simp_all
  have c0: "0 \<le> cv" unfolding cv_def by (intro f64_grid_nonneg) simp
  have w2: "rel_within 2 (cv * math_pi) (4 / 3 * pi)"
    by (rule rw_mult_to[OF c(2) math_pi_rel]) simp_all
  have "1 \<le> 4 / 3 * pi" "4 / 3 * pi \<le> 8" using pi_coarse by simp_all
  then have w: "f64_of_real (cv * math_pi) = Fin wv" "rel_within 3 wv (4 / 3 * pi)"
    using f64_of_real_rel(1,2)[OF w2, of 3] unfolding wv_def by simp_all
  have w0: "0 \<le> wv" unfolding wv_def using c0
    by (intro f64_grid_nonneg) (simp add: math_pi_def)
  have "f64_truediv (Fin 4) (Fin 3) = Inr (Fin (f64_grid (4 / 3)))"
    using c(1) by (simp add: cv_def)
  moreover have "f64_mul (Fin (f64_grid (4 / 3))) (Fin math_pi) = Fin wv"
    using w(1) by (simp add: cv_def)
  ultimately show thesis using that w0 w(2) by blast
qed

lemma f64_sphere_volume_rel:
  assumes lo: "1 / 2 ^ 302 \<le> \<rho>" and hi: "\<rho> \<le> 2 ^ 302"
  obtains v where "f64_sphere_volume (Fin \<rho>) = Inr (Fin v)" "0 \<le> v"
    "rel_within 5 v (4 / 3 * pi * \<rho> ^ 3)"
proof -
  have r0: "0 \<le> \<rho>" using lo by (smt (verit) zero_less_power divide_pos_pos)
  have cu_lo: "1 / 2 ^ 906 \<le> \<rho> ^ 3"
    using power_mono[OF lo, of 3] by (simp add: power_divide)
  have cu_hi: "\<rho> ^ 3 \<le> 2 ^ 906"
    using power_mono[OF hi r0, of 3] by simp
  obtain wv where w: "f64_truediv (Fin 4) (Fin 3) = Inr (Fin (f64_grid (4 / 3)))"
    "f64_mul (Fin (f64_grid (4 / 3))) (Fin math_pi) = Fin wv" "0 \<le> wv"
    "rel_within 3 wv (4 / 3 * pi)"
    by (rule f64_four_thirds_pi)
  define pv where "pv = f64_grid (\<rho> ^ 3)"
  define vv where "vv = f64_grid (wv * pv)"
  have "rel_within 0 (\<rho> ^ 3) (\<rho> ^ 3)" using r0 by (simp add: rw_refl)
  from f64_of_real_rel(1,2)[OF this, of 1] cu_lo cu_hi
  have p: "f64_of_real (\<rho> ^ 3) = Fin pv" "rel_within 1 pv (\<rho> ^ 3)"
    unfolding pv_def by simp_all
  have p0: "0 \<le> pv" unfolding pv_def using r0 by (intro f64_grid_nonneg) simp
  have v4: "rel_within 4 (wv * pv) (4 / 3 * pi * \<rho> ^ 3)"
    using r0 by (intro rw_mult_to[OF w(4) p(2)]) simp_all
  have "1 * (1 / 2 ^ 906) \<le> 4 / 3 * pi * \<rho> ^ 3"
    using pi_coarse cu_lo by (intro mult_mono) simp_all
  moreover have "4 / 3 * pi * \<rho> ^ 3 \<le> 8 * 2 ^ 906"
    using pi_coarse cu_hi r0 by (intro mult_mono) simp_all
  ultimately have v: "f64_of_real (wv * pv) = Fin vv" "rel_within 5 vv (4 / 3 * pi * \<rho> ^ 3)"
    using f64_of_real_rel(1,2)[OF v4, of 5] unfolding vv_def by simp_all
  have v0: "0 \<le> vv" unfolding vv_def using w(3) p0 by (intro f64_grid_nonneg) simp
  have e: "f64_pow (Fin \<rho>) 3 = Inr (Fin pv)" by (simp only: f64_pow.simps p f64.case)
  have "f64_mul (Fin wv) (Fin pv) = Fin vv" by (simp only: f64_mul.simps v)
  then have "f64_sphere_volume (Fin \<rho>) = Inr (Fin vv)"
    by (simp only: f64_sphere_volume_def w e and_then_simps)
  then show thesis using that v0 v(2) by blast
qed

lemma f64_max_pos: "0 < f64_max"
  by (simp add: f64_max_def)

lemma f64_of_real_underflow:
  assumes "\<bar>v\<bar> < 1 / 2 ^ 1075"
  shows "f64_of_real v = Fin 0"
  using f64_grid_underflow[OF assms] f64_max_pos by (simp add: f64_of_real_def)

lemma f64_of_real_zero [simp]: "f64_of_real 0 = Fin 0"
  by (rule f64_of_real_underflow) simp

lemma f64_of_real_small:
  assumes "\<bar>v\<bar> \<le> b" "b \<le> 1"
  obtains w where "f64_of_real v = Fin w" "\<bar>w\<bar> \<le> 2 * b + 1 / 2 ^ 1075"
proof -
  have "(1 :: real) \<le> 2 ^ 1000" by simp
  then have "\<bar>v\<bar> \<le> 2 ^ 1000" using assms by linarith
  then have f: "f64_of_real v = Fin (f64_grid v)" by (rule f64_of_real_fin)
  have "\<bar>f64_grid v\<bar> \<le> \<bar>v\<bar> + (\<bar>v\<bar> / 2 ^ 53 + 1 / 2 ^ 1075)"
    using f64_grid_error_any[of v] by linarith
  also have "\<dots> \<le> 2 * \<bar>v\<bar> + 1 / 2 ^ 1075"
  proof -
    have "\<bar>v\<bar> / 2 ^ 53 \<le> \<bar>v\<bar>" by (simp add: field_simps)
    then show ?thesis by simp
  qed
  also have "\<dots> \<le> 2 * b + 1 / 2 ^ 1075" using assms(1) by simp
  finally show thesis using that f by blast
qed

lemma f64_sqrt_two:
  obtains sv where "math_sqrt64 (Fin 2) = Inr (Fin sv)" "\<bar>sv\<bar> \<le> 4"
proof -
  have "rel_within 0 (sqrt 2) (sqrt 2)" by (simp add: rw_refl)
  from f64_of_real_rel(1,2)[OF this, of 1] sqrt_two_three_bounds
  have s: "f64_of_real (sqrt 2) = Fin (f64_grid (sqrt 2))"
    "rel_within 1 (f64_grid (sqrt 2)) (sqrt 2)"
    by simp_all
  have "\<bar>f64_grid (sqrt 2)\<bar> \<le> 2 * sqrt 2"
    using rw_coarse(2)[OF s(2)] by simp
  then have "\<bar>f64_grid (sqrt 2)\<bar> \<le> 4" using sqrt_two_three_bounds(2) by simp
  moreover have "math_sqrt64 (Fin 2) = Inr (Fin (f64_grid (sqrt 2)))" by (simp add: s(1))
  ultimately show thesis using that by blast
qed

lemma f64_diag_length_tiny:
  assumes "\<bar>a\<bar> \<le> 1 / 2 ^ 600"
  shows "f64_diag_length (Fin a) = Inr (Fin 0)"
proof -
  have "\<bar>a\<bar> ^ 2 \<le> (1 / 2 ^ 600) ^ 2" using assms by (intro power_mono) simp_all
  then have "\<bar>a ^ 2\<bar> < 1 / 2 ^ 1075" by (simp add: power_divide power_abs)
  then have "f64_of_real (a ^ 2) = Fin 0" by (rule f64_of_real_underflow)
  then have e1: "f64_pow (Fin a) 2 = Inr (Fin 0)"
    by (simp only: f64_pow.simps f64.case)
  obtain sv where s: "math_sqrt64 (Fin 2) = Inr (Fin sv)" "\<bar>sv\<bar> \<le> 4"
    by (rule f64_sqrt_two)
  have "\<bar>sv * a\<bar> \<le> 4 * (1 / 2 ^ 600)"
    unfolding abs_mult using s(2) assms by (intro mult_mono) simp_all
  then have "\<bar>sv * a\<bar> \<le> 1 / 2 ^ 598" by simp
  then obtain mv where m: "f64_of_real (sv * a) = Fin mv" "\<bar>mv\<bar> \<le> 2 * (1 / 2 ^ 598) + 1 / 2 ^ 1075"
    by (rule f64_of_real_small) simp
  have "\<bar>mv\<bar> \<le> 1 / 2 ^ 596" using m(2) by simp
  then have "\<bar>mv\<bar> ^ 2 \<le> (1 / 2 ^ 596) ^ 2" by (intro power_mono) simp_all
  then have "\<bar>mv ^ 2\<bar> < 1 / 2 ^ 1075" by (simp add: power_divide power_abs)
  then have "f64_of_real (mv ^ 2) = Fin 0" by (rule f64_of_real_underflow)
  then have e4: "f64_pow (Fin mv) 2 = Inr (Fin 0)"
    by (simp only: f64_pow.simps f64.case)
  have e3: "f64_mul (Fin sv) (Fin a) = Fin mv" by (simp only: f64_mul.simps m(1))
  have e5: "f64_add (Fin 0) (Fin 0) = Fin 0" by simp
  have e6: "math_sqrt64 (Fin 0) = Inr (Fin 0)" by simp
  show ?thesis
    by (simp only: f64_diag_length_def e1 s(1) e3 e4 e5 e6 and_then_simps)
qed

lemma f64_sphere_volume_tiny:
  assumes "\<bar>\<rho>\<bar> \<le> 1 / 2 ^ 399"
  shows "f64_sphere_volume (Fin \<rho>) = Inr (Fin 0)"
proof -
  obtain wv where w: "f64_truediv (Fin 4) (Fin 3) = Inr (Fin (f64_grid (4 / 3)))"
    "f64_mul (Fin (f64_grid (4 / 3))) (Fin math_pi) = Fin wv"
    by (rule f64_four_thirds_pi)
  have "\<bar>\<rho>\<bar> ^ 3 \<le> (1 / 2 ^ 399) ^ 3" using assms by (intro power_mono) simp_all
  then have "\<bar>\<rho> ^ 3\<bar> < 1 / 2 ^ 1075" by (simp add: power_divide power_abs)
  then have "f64_of_real (\<rho> ^ 3) = Fin 0" by (rule f64_of_real_underflow)
  then have e: "f64_pow (Fin \<rho>) 3 = Inr (Fin 0)"
    by (simp only: f64_pow.simps f64.case)
  have z: "f64_mul (Fin wv) (Fin 0) = Fin 0" by simp
  show ?thesis
    by (simp only: f64_sphere_volume_def w e and_then_simps z)
qed

lemma f64_sin_fin:
  obtains tq sn where "f64_truediv (Fin math_pi) (Fin 3) = Inr (Fin tq)"
    "math_sin64 (Fin tq) = Inr (Fin sn)" "\<bar>sn\<bar> \<le> 2" "1 / 4 \<le> \<bar>sn\<bar>"
proof -
  define tq where "tq = f64_grid (math_pi / 3)"
  have "rel_within 1 (math_pi / 3) (pi / 3)"
    using math_pi_rel unfolding rel_within_def by simp
  moreover have "1 \<le> pi / 3" "pi / 3 \<le> 2" using pi_coarse by simp_all
  ultimately have t: "f64_of_real (math_pi / 3) = Fin tq" "rel_within 2 tq (pi / 3)"
    using f64_of_real_rel(1,2)[of 1 "math_pi / 3" "pi / 3" 2] unfolding tq_def by simp_all
  have t0: "0 \<le> tq" unfolding tq_def by (intro f64_grid_nonneg) (simp add: math_pi_def)
  have "\<bar>\<bar>tq\<bar> - pi / 3\<bar> \<le> pi / 3 / 10 ^ 9"
    using t(2) by (rule rw_tolerance) (use pi_coarse in simp_all)
  then have "\<bar>tq - pi / 3\<bar> \<le> pi / 3 / 10 ^ 9" using t0 by simp
  then have "tq - pi / 3 \<le> pi / 3 / 10 ^ 9" "- (tq - pi / 3) \<le> pi / 3 / 10 ^ 9"
    by (rule abs_le_D1, rule abs_le_D2)
  then have r: "pi / 6 \<le> tq" "tq \<le> pi / 2" using pi_coarse by simp_all
  have "sin (pi / 6) \<le> sin tq"
    using r pi_coarse by (intro sin_monotone_2pi_le) simp_all
  then have s1: "1 / 2 \<le> sin tq" by (simp add: sin_30)
  define sn where "sn = f64_grid (sin tq)"
  have "rel_within 0 (sin tq) (sin tq)" using s1 by (intro rw_refl) simp
  moreover have "1 / 2 ^ 1020 \<le> sin tq"
  proof -
    have "(1 / 2 ^ 1020 :: real) \<le> 1 / 2" by simp
    then show ?thesis using s1 by (rule order_trans)
  qed
  moreover have "sin tq \<le> 2 ^ 999"
  proof -
    have "(1 :: real) \<le> 2 ^ 999" by simp
    with sin_le_one[of tq] show ?thesis by (rule order_trans)
  qed
  ultimately have s: "f64_of_real (sin tq) = Fin sn" "rel_within 1 sn (sin tq)"
    using f64_of_real_rel(1,2)[of 0 "sin tq" "sin tq" 1] unfolding sn_def by simp_all
  have c: "sin tq / 2 \<le> \<bar>sn\<bar>" "\<bar>sn\<bar> \<le> 2 * sin tq"
    using rw_coarse[OF s(2)] s1 by simp_all
  have "\<bar>sn\<bar> \<le> 2" using c(2) sin_le_one[of tq] by linarith
  moreover have "1 / 4 \<le> \<bar>sn\<bar>" using c(1) s1 by linarith
  moreover have "f64_truediv (Fin math_pi) (Fin 3) = Inr (Fin tq)"
    by (simp add: t(1))
  moreover have "math_sin64 (Fin tq) = Inr (Fin sn)"
    by (simp add: s(1))
  ultimately show thesis using that by blast
qed

lemma f64_x_tiny:
  assumes "\<bar>a\<bar> \<le> 1 / 2 ^ 600"
  obtains xv where "f64_x (Fin a) = Inr (Fin xv)" "\<bar>xv\<bar> \<le> 1 / 2 ^ 597"
proof -
  obtain tq sn where sn: "f64_truediv (Fin math_pi) (Fin 3) = Inr (Fin tq)"
    "math_sin64 (Fin tq) = Inr (Fin sn)" "\<bar>sn\<bar> \<le> 2"
    by (rule f64_sin_fin)
  have "\<bar>a * sn\<bar> \<le> 1 / 2 ^ 600 * 2"
    unfolding abs_mult using assms sn(3) by (intro mult_mono) simp_all
  then have "\<bar>a * sn\<bar> \<le> 1 / 2 ^ 599" by simp
  then obtain xv where x: "f64_of_real (a * sn) = Fin xv" "\<bar>xv\<bar> \<le> 2 * (1 / 2 ^ 599) + 1 / 2 ^ 1075"
    by (rule f64_of_real_small) simp
  have "\<bar>xv\<bar> \<le> 1 / 2 ^ 597" using x(2) by simp
  moreover have "f64_mul (Fin a) (Fin sn) = Fin xv" by (simp only: f64_mul.simps x(1))
  then have "f64_x (Fin a) = Inr (Fin xv)"
    by (simp only: f64_x_def sn(1,2) and_then_simps)
  ultimately show thesis using that by blast
qed

lemma f64_sin_pi_3_tiny:
  assumes "\<bar>xv\<bar> \<le> 1 / 2 ^ 597"
  shows "f64_sin_pi_3 vol (Fin xv) = Inl ZeroDivisionError"
proof -
  have "\<bar>xv\<bar> ^ 3 \<le> (1 / 2 ^ 597) ^ 3" using assms by (intro power_mono) simp_all
  then have "\<bar>xv ^ 3\<bar> < 1 / 2 ^ 1075" by (simp add: power_divide power_abs)
  then have "f64_of_real (xv ^ 3) = Fin 0" by (rule f64_of_real_underflow)
  then have e: "f64_pow (Fin xv) 3 = Inr (Fin 0)"
    by (simp only: f64_pow.simps f64.case)
  have z: "f64_mul (Fin math_pi) (Fin 0) = Fin 0" by simp
  have d: "f64_truediv vol (Fin 0) = Inl ZeroDivisionError" by simp
  show ?thesis
    by (simp only: f64_sin_pi_3_def e z d and_then_simps)
qed

lemma f64_evaluate_tiny:
  assumes "\<bar>a\<bar> \<le> 1 / 2 ^ 600"
  shows "f64_evaluate (Fin a) = Inl ZeroDivisionError"
proof -
  have d: "f64_diag_length (Fin a) = Inr (Fin 0)"
    using assms by (rule f64_diag_length_tiny)
  have r: "f64_sphere_radius (Fin 0) = Inr (Fin 0)"
    by (simp add: f64_sphere_radius_def)
  have v: "f64_sphere_volume (Fin 0) = Inr (Fin 0)"
    by (rule f64_sphere_volume_tiny) simp
  obtain xv where x: "f64_x (Fin a) = Inr (Fin xv)" "\<bar>xv\<bar> \<le> 1 / 2 ^ 597"
    using assms by (rule f64_x_tiny)
  have q: "f64_sin_pi_3 (Fin 0) (Fin xv) = Inl ZeroDivisionError"
    using x(2) by (rule f64_sin_pi_3_tiny)
  show ?thesis
    by (simp only: f64_evaluate_def f64_first_three_def d r v x(1) q and_then_simps prod.case)
qed

lemma f64_evaluate_huge:
  assumes "2 ^ 600 \<le> \<bar>a\<bar>"
  shows "f64_evaluate (Fin a) = Inl OverflowError"
proof -
  have "(2 ^ 600) ^ 2 \<le> \<bar>a\<bar> ^ 2" using assms by (intro power_mono) simp_all
  then have big: "2 ^ 1200 \<le> a ^ 2" by simp
  then have "1 / 2 ^ 1022 \<le> \<bar>a ^ 2\<bar>"
  proof -
    have "(1 / 2 ^ 1022 :: real) \<le> 2 ^ 1200" by simp
    then show ?thesis using big by simp
  qed
  then have e: "\<bar>f64_grid (a ^ 2) - a ^ 2\<bar> \<le> \<bar>a ^ 2\<bar> / 2 ^ 53" by (rule f64_grid_error)
  have "- (f64_grid (a ^ 2) - a ^ 2) \<le> \<bar>a ^ 2\<bar> / 2 ^ 53"
    using e by (rule abs_le_D2)
  then have "a ^ 2 - a ^ 2 / 2 ^ 53 \<le> f64_grid (a ^ 2)"
    by simp
  moreover have "2 ^ 1200 * (1 - 1 / 2 ^ 53) \<le> a ^ 2 * (1 - 1 / 2 ^ 53)"
    using big by (intro mult_right_mono) simp_all
  moreover have "f64_max < 2 ^ 1200 * (1 - 1 / 2 ^ 53)" by (simp add: f64_max_def)
  ultimately have "f64_max < f64_grid (a ^ 2)" by (simp add: algebra_simps)
  then have "f64_of_real (a ^ 2) = Inf True" by (simp add: f64_of_real_def)
  then have "f64_pow (Fin a) 2 = Inl OverflowError"
    by (simp only: f64_pow.simps f64.case)
  then have "f64_diag_length (Fin a) = Inl OverflowError"
    by (simp only: f64_diag_length_def and_then_simps)
  then show ?thesis
    by (simp only: f64_evaluate_def f64_first_three_def and_then_simps)
qed

lemma f64_first_three_rel:
  assumes lo: "1 / 2 ^ 400 \<le> \<bar>a\<bar>" and hi: "\<bar>a\<bar> \<le> 2 ^ 300"
  obtains d \<rho> where "f64_diag_length (Fin a) = Inr (Fin d)" "0 \<le> d"
    "rel_within 4 d (\<bar>a\<bar> * sqrt 3)"
    "f64_sphere_radius (Fin d) = Inr (Fin \<rho>)" "0 < \<rho>"
    "\<bar>a\<bar> / 4 \<le> \<rho>" "\<rho> \<le> 2 * \<bar>a\<bar>"
proof -
  have lo': "1 / 2 ^ 500 \<le> \<bar>a\<bar>"
  proof -
    have "(1 / 2 ^ 500 :: real) \<le> 1 / 2 ^ 400" by simp
    then show ?thesis using lo by (rule order_trans)
  qed
  have hi': "\<bar>a\<bar> \<le> 2 ^ 490"
  proof -
    have "(2 ^ 300 :: real) \<le> 2 ^ 490" by simp
    with hi show ?thesis by (rule order_trans)
  qed
  obtain d where d: "f64_diag_length (Fin a) = Inr (Fin d)" "0 \<le> d"
    "rel_within 4 d (\<bar>a\<bar> * sqrt 3)"
    using lo' hi' by (rule f64_diag_length_rel)
  obtain \<rho> where r: "f64_sphere_radius (Fin d) = Inr (Fin \<rho>)" "0 < \<rho>"
    "rel_within 5 \<rho> (\<bar>a\<bar> * sqrt 3 / 2)"
    using lo' hi' d(3) d(2) by (rule f64_sphere_radius_rel)
  have w0: "0 \<le> \<bar>a\<bar> * sqrt 3 / 2" by simp
  have c: "\<bar>a\<bar> * sqrt 3 / 2 / 2 \<le> \<bar>\<rho>\<bar>" "\<bar>\<rho>\<bar> \<le> 2 * (\<bar>a\<bar> * sqrt 3 / 2)"
    using rw_coarse[OF r(3) _ w0] by simp_all
  have "\<bar>a\<bar> * 1 \<le> \<bar>a\<bar> * sqrt 3" "\<bar>a\<bar> * sqrt 3 \<le> \<bar>a\<bar> * 2"
    using sqrt_two_three_bounds by (intro mult_left_mono; simp)+
  then have "\<bar>a\<bar> / 4 \<le> \<rho>" "\<rho> \<le> 2 * \<bar>a\<bar>"
    using c r(2) by simp_all
  then show thesis using that d r(1,2) by blast
qed

lemma f64_evaluate_returns:
  assumes lo: "1 / 2 ^ 300 \<le> \<bar>a\<bar>" and hi: "\<bar>a\<bar> \<le> 2 ^ 300"
  shows "\<exists>res. f64_evaluate (Fin a) = Inr res"
proof -
  have lo4: "1 / 2 ^ 400 \<le> \<bar>a\<bar>"
  proof -
    have "(1 / 2 ^ 400 :: real) \<le> 1 / 2 ^ 300" by simp
    then show ?thesis using lo by (rule order_trans)
  qed
  obtain d \<rho> where f: "f64_diag_length (Fin a) = Inr (Fin d)"
    "f64_sphere_radius (Fin d) = Inr (Fin \<rho>)" "\<bar>a\<bar> / 4 \<le> \<rho>" "\<rho> \<le> 2 * \<bar>a\<bar>"
    using lo4 hi by (rule f64_first_three_rel)
  have "1 / 2 ^ 302 \<le> \<rho>" "\<rho> \<le> 2 ^ 302" using f(3,4) lo hi by simp_all
  then obtain v where v: "f64_sphere_volume (Fin \<rho>) = Inr (Fin v)"
    by (rule f64_sphere_volume_rel)
  obtain tq sn where sn: "f64_truediv (Fin math_pi) (Fin 3) = Inr (Fin tq)"
    "math_sin64 (Fin tq) = Inr (Fin sn)" "\<bar>sn\<bar> \<le> 2" "1 / 4 \<le> \<bar>sn\<bar>"
    by (rule f64_sin_fin)
  \<comment> \<open>\<open>x = r * math.sin(math.pi / 3)\<close>\<close>
  define xv where "xv = f64_grid (a * sn)"
  have xlo: "1 / 2 ^ 300 * (1 / 4) \<le> \<bar>a\<bar> * \<bar>sn\<bar>"
    using lo sn(4) by (intro mult_mono) simp_all
  have xhi: "\<bar>a\<bar> * \<bar>sn\<bar> \<le> 2 ^ 300 * 2"
    using hi sn(3) by (intro mult_mono) simp_all
  have "rel_within 0 (a * sn) (\<bar>a\<bar> * \<bar>sn\<bar>)"
    by (simp add: rel_within_def abs_mult)
  with xlo xhi have x: "f64_of_real (a * sn) = Fin xv" "rel_within 1 xv (\<bar>a\<bar> * \<bar>sn\<bar>)"
    using f64_of_real_rel(1,2)[of 0 "a * sn" "\<bar>a\<bar> * \<bar>sn\<bar>" 1] unfolding xv_def by simp_all
  have ex: "f64_x (Fin a) = Inr (Fin xv)"
    by (simp only: f64_x_def sn(1,2) and_then_simps f64_mul.simps x(1))
  \<comment> \<open>\<open>x**3\<close>\<close>
  define pv where "pv = f64_grid (xv ^ 3)"
  have clo: "(1 / 2 ^ 300 * (1 / 4)) ^ 3 \<le> (\<bar>a\<bar> * \<bar>sn\<bar>) ^ 3"
    using xlo by (intro power_mono) simp_all
  have chi: "(\<bar>a\<bar> * \<bar>sn\<bar>) ^ 3 \<le> (2 ^ 300 * 2) ^ 3"
    using xhi by (intro power_mono) simp_all
  have "rel_within (1 * 3) (xv ^ 3) ((\<bar>a\<bar> * \<bar>sn\<bar>) ^ 3)"
    using x(2) by (intro rw_power) simp_all
  then have p3: "rel_within 3 (xv ^ 3) ((\<bar>a\<bar> * \<bar>sn\<bar>) ^ 3)" by simp
  have p: "f64_of_real (xv ^ 3) = Fin pv" "rel_within 4 pv ((\<bar>a\<bar> * \<bar>sn\<bar>) ^ 3)"
    using f64_of_real_rel(1,2)[OF p3, of 4] clo chi unfolding pv_def
    by (simp_all add: power_divide power_mult_distrib)
  have ep: "f64_pow (Fin xv) 3 = Inr (Fin pv)"
    by (simp only: f64_pow.simps p(1) f64.case)
  \<comment> \<open>\<open>math.pi * x**3\<close>\<close>
  define wv where "wv = f64_grid (math_pi * pv)"
  have w5: "rel_within 5 (math_pi * pv) (pi * (\<bar>a\<bar> * \<bar>sn\<bar>) ^ 3)"
    by (rule rw_mult_to[OF math_pi_rel p(2)]) simp_all
  have "1 * (1 / 2 ^ 300 * (1 / 4)) ^ 3 \<le> pi * (\<bar>a\<bar> * \<bar>sn\<bar>) ^ 3"
    using pi_coarse clo by (intro mult_mono) simp_all
  moreover have "pi * (\<bar>a\<bar> * \<bar>sn\<bar>) ^ 3 \<le> 4 * (2 ^ 300 * 2) ^ 3"
    using pi_coarse chi by (intro mult_mono) simp_all
  ultimately have w: "f64_of_real (math_pi * pv) = Fin wv" "wv \<noteq> 0"
    using f64_of_real_rel(1,3)[OF w5, of 6] unfolding wv_def
    by (simp_all add: power_divide power_mult_distrib)
  have ew: "f64_mul (Fin math_pi) (Fin pv) = Fin wv"
    by (simp only: f64_mul.simps w(1))
  have "f64_truediv (Fin v) (Fin wv) = Inr (f64_of_real (v / wv))"
    using w(2) by simp
  then have "f64_sin_pi_3 (Fin v) (Fin xv) = Inr (f64_of_real (v / wv))"
    by (simp only: f64_sin_pi_3_def ep ew and_then_simps)
  then have "f64_evaluate (Fin a) = Inr (Fin d, Fin \<rho>, Fin v, f64_of_real (v / wv))"
    by (simp only: f64_evaluate_def f64_first_three_def f(1,2) v ex and_then_simps prod.case)
  then show ?thesis by blast
qed

lemma f64_diag_tolerance:
  assumes "1 / 2 ^ 500 \<le> a" "a \<le> 2 ^ 490"
  shows "\<exists>d. f64_diag_length (Fin a) = Inr (Fin d) \<and> \<bar>d - a * sqrt 3\<bar> \<le> a * sqrt 3 / 10 ^ 9"
proof -
  have a0: "0 < a" using assms(1) by (smt (verit) zero_less_power divide_pos_pos)
  then have aa: "\<bar>a\<bar> = a" by simp
  have "1 / 2 ^ 500 \<le> \<bar>a\<bar>" "\<bar>a\<bar> \<le> 2 ^ 490" using assms aa by simp_all
  then obtain d where d: "f64_diag_length (Fin a) = Inr (Fin d)" "0 \<le> d"
    "rel_within 4 d (\<bar>a\<bar> * sqrt 3)"
    by (rule f64_diag_length_rel)
  have "\<bar>\<bar>d\<bar> - \<bar>a\<bar> * sqrt 3\<bar> \<le> \<bar>a\<bar> * sqrt 3 / 10 ^ 9"
    using d(3) by (rule rw_tolerance) simp_all
  then have "\<bar>d - a * sqrt 3\<bar> \<le> a * sqrt 3 / 10 ^ 9"
    using d(2) aa by simp
  then show ?thesis using d(1) by blast
qed

lemma f64_volume_tolerance:
  assumes "1 / 2 ^ 300 \<le> a" "a \<le> 2 ^ 300"
  shows "\<exists>d \<rho> v. f64_first_three (Fin a) = Inr (d, Fin \<rho>, Fin v) \<and> 0 < \<rho> \<and>
           \<bar>v - 4 / 3 * pi * \<rho> ^ 3\<bar> \<le> 4 / 3 * pi * \<rho> ^ 3 / 10 ^ 9"
proof -
  have a0: "0 < a" using assms(1) by (smt (verit) zero_less_power divide_pos_pos)
  then have aa: "\<bar>a\<bar> = a" by simp
  have lo4: "1 / 2 ^ 400 \<le> \<bar>a\<bar>"
  proof -
    have "(1 / 2 ^ 400 :: real) \<le> 1 / 2 ^ 300" by simp
    then show ?thesis using assms(1) aa by linarith
  qed
  have hi: "\<bar>a\<bar> \<le> 2 ^ 300" using assms(2) aa by simp
  obtain d \<rho> where f: "f64_diag_length (Fin a) = Inr (Fin d)"
    "f64_sphere_radius (Fin d) = Inr (Fin \<rho>)" "0 < \<rho>" "\<bar>a\<bar> / 4 \<le> \<rho>" "\<rho> \<le> 2 * \<bar>a\<bar>"
    using lo4 hi by (rule f64_first_three_rel)
  have "1 / 2 ^ 302 \<le> \<rho>" "\<rho> \<le> 2 ^ 302" using f(4,5) assms aa by simp_all
  then obtain v where v: "f64_sphere_volume (Fin \<rho>) = Inr (Fin v)" "0 \<le> v"
    "rel_within 5 v (4 / 3 * pi * \<rho> ^ 3)"
    by (rule f64_sphere_volume_rel)
  have w0: "0 \<le> 4 / 3 * pi * \<rho> ^ 3" using f(3) by simp
  have "\<bar>\<bar>v\<bar> - 4 / 3 * pi * \<rho> ^ 3\<bar> \<le> 4 / 3 * pi * \<rho> ^ 3 / 10 ^ 9"
    using v(3) _ w0 by (rule rw_tolerance) simp
  then have "\<bar>v - 4 / 3 * pi * \<rho> ^ 3\<bar> \<le> 4 / 3 * pi * \<rho> ^ 3 / 10 ^ 9"
    using v(2) by simp
  moreover have "f64_first_three (Fin a) = Inr (Fin d, Fin \<rho>, Fin v)"
    by (simp only: f64_first_three_def f(1,2) v(1) and_then_simps)
  ultimately show ?thesis using f(3) by blast
qed

lemma f64_volume_underflow:
  "map_sum id (\<lambda>(d, \<rho>, vol). (vol, case \<rho> of Fin p \<Rightarrow> 0 < p | Inf s \<Rightarrow> False | NaN \<Rightarrow> False))
     (f64_first_three (Fin (1 / 2 ^ 400))) = Inr (Fin 0, True)"
proof -
  have lo: "1 / 2 ^ 400 \<le> \<bar>1 / 2 ^ 400 :: real\<bar>" by simp
  have hi: "\<bar>1 / 2 ^ 400 :: real\<bar> \<le> 2 ^ 300" by simp
  obtain d \<rho> where f: "f64_diag_length (Fin (1 / 2 ^ 400)) = Inr (Fin d)"
    "f64_sphere_radius (Fin d) = Inr (Fin \<rho>)" "0 < \<rho>" "\<rho> \<le> 2 * \<bar>1 / 2 ^ 400 :: real\<bar>"
    using lo hi by (rule f64_first_three_rel)
  have "\<bar>\<rho>\<bar> \<le> 1 / 2 ^ 399" using f(3,4) by simp
  then have v: "f64_sphere_volume (Fin \<rho>) = Inr (Fin 0)"
    by (rule f64_sphere_volume_tiny)
  have "f64_first_three (Fin (1 / 2 ^ 400)) = Inr (Fin d, Fin \<rho>, Fin 0)"
    by (simp only: f64_first_three_def f(1,2) v and_then_simps)
  then show ?thesis using f(3) by simp
qed

lemma f64_diag_underflow:
  "f64_diag_length (Fin (1 / 2 ^ 600)) = Inr (Fin 0) \<and>
   \<not> \<bar>0 - 1 / 2 ^ 600 * sqrt 3\<bar> \<le> 1 / 2 ^ 600 * sqrt 3 / 10 ^ 9"
proof -
  have "f64_diag_length (Fin (1 / 2 ^ 600)) = Inr (Fin 0)"
    by (rule f64_diag_length_tiny) simp
  moreover have "\<not> \<bar>0 - 1 / 2 ^ 600 * sqrt 3\<bar> \<le> 1 / 2 ^ 600 * sqrt 3 / 10 ^ 9"
    by simp
  ultimately show ?thesis by blast
qed

section \<open>The claims\<close>

text \<open>
  Claim C1: the claim is that the identity value agrees with \<open>sin (pi/3)\<close>, 0.8660, to
  four decimal places. At \<open>r = 1\<close> the script prints 1.3333 under the label
  \<^verbatim>\<open>sin(pi/3) =\<close>, while \<open>sin (pi/3)\<close> itself formats to 0.8660. The ratio that
  does give the sine divides the volume by \<open>pi * r ^ 3\<close>, the volume formula of the
  module docstring, and not by \<open>pi * x ^ 3\<close>.
\<close>

theorem identity_value_is_not_the_sine:
  "map_sum id (\<lambda>s'. fmt4 (sin_pi_3 s')) (evaluate 1 blank) = Inr 13333 \<and>
   fmt4 (sin (pi / 3)) = 8660 \<and>
   map_sum id (\<lambda>s'. sphere_volume s' / (pi * r s' ^ 3)) (evaluate 1 blank) = Inr (sin (pi / 3))"
proof -
  obtain s1 where e: "evaluate 1 blank = Inr s1" and "r s1 = 1"
    and "sphere_volume s1 = pi * sqrt 3 * (1 ^ 3 / 2)" and q: "sin_pi_3 s1 = 4 / 3"
    using evaluate_pos_fields[of 1 blank] by (metis zero_less_one)
  then have v: "sphere_volume s1 / (pi * r s1 ^ 3) = sin (pi / 3)"
    by (simp add: sin_60)
  have "fmt4 (sin_pi_3 s1) = 13333"
    by (simp only: q fmt4_four_thirds)
  then show ?thesis
    by (simp only: e v fmt4_sin_60 map_sum.simps id_apply simp_thms)
qed

text \<open>
  Claim C2: at \<open>r = 3\<close> the volume formats to 73.4589 and the identity value to
  1.3333, where the claim has 73.4594 and 0.8660.
\<close>

theorem scenario_r3_counterexample:
  "map_sum id (\<lambda>s'. (fmt4 (sphere_volume s'), fmt4 (sin_pi_3 s'))) (evaluate 3 blank)
     = Inr (734589, 13333)"
proof -
  have "(0 :: real) < 3" by simp
  then obtain s3 where "evaluate 3 blank = Inr s3"
    "sphere_volume s3 = pi * sqrt 3 * (3 ^ 3 / 2)" "sin_pi_3 s3 = 4 / 3"
    using evaluate_pos_fields[of 3 blank] by metis
  then show ?thesis
    by (simp only: fmt4_volumes fmt4_four_thirds map_sum.simps id_apply)
qed

text \<open>
  Claim C2, as amended: to four decimal places the pipeline gives a diagonal of 1.7321, a
  radius of 0.8660 and a volume of 2.7207 for \<open>r = 1\<close>; 3.4641, 1.7321 and 21.7656
  for \<open>r = 2\<close>; 5.1962, 2.5981 and 73.4589 for \<open>r = 3\<close>.
\<close>

theorem scenarios_to_four_places:
  "map_sum id (\<lambda>s'. (fmt4 (diag_length s'), fmt4 (sphere_radius s'), fmt4 (sphere_volume s')))
     (evaluate 1 s) = Inr (17321, 8660, 27207) \<and>
   map_sum id (\<lambda>s'. (fmt4 (diag_length s'), fmt4 (sphere_radius s'), fmt4 (sphere_volume s')))
     (evaluate 2 s) = Inr (34641, 17321, 217656) \<and>
   map_sum id (\<lambda>s'. (fmt4 (diag_length s'), fmt4 (sphere_radius s'), fmt4 (sphere_volume s')))
     (evaluate 3 s) = Inr (51962, 25981, 734589)"
proof (intro conjI)
  obtain s1 where "evaluate 1 s = Inr s1" "diag_length s1 = 1 * sqrt 3"
    "sphere_radius s1 = 1 * sqrt 3 / 2" "sphere_volume s1 = pi * sqrt 3 * (1 ^ 3 / 2)"
    using evaluate_pos_fields[of 1 s] by (metis zero_less_one)
  then show "map_sum id (\<lambda>s'. (fmt4 (diag_length s'), fmt4 (sphere_radius s'), fmt4 (sphere_volume s')))
     (evaluate 1 s) = Inr (17321, 8660, 27207)"
    by (simp only: fmt4_sqrt3_multiples fmt4_volumes map_sum.simps id_apply)
next
  have "(0 :: real) < 2" by simp
  then obtain s2 where "evaluate 2 s = Inr s2" "diag_length s2 = 2 * sqrt 3"
    "sphere_radius s2 = 2 * sqrt 3 / 2" "sphere_volume s2 = pi * sqrt 3 * (2 ^ 3 / 2)"
    using evaluate_pos_fields[of 2 s] by metis
  then show "map_sum id (\<lambda>s'. (fmt4 (diag_length s'), fmt4 (sphere_radius s'), fmt4 (sphere_volume s')))
     (evaluate 2 s) = Inr (34641, 17321, 217656)"
    by (simp only: fmt4_sqrt3_multiples fmt4_volumes map_sum.simps id_apply)
next
  have "(0 :: real) < 3" by simp
  then obtain s3 where "evaluate 3 s = Inr s3" "diag_length s3 = 3 * sqrt 3"
    "sphere_radius s3 = 3 * sqrt 3 / 2" "sphere_volume s3 = pi * sqrt 3 * (3 ^ 3 / 2)"
    using evaluate_pos_fields[of 3 s] by metis
  then show "map_sum id (\<lambda>s'. (fmt4 (diag_length s'), fmt4 (sphere_radius s'), fmt4 (sphere_volume s')))
     (evaluate 3 s) = Inr (51962, 25981, 734589)"
    by (simp only: fmt4_sqrt3_multiples fmt4_volumes map_sum.simps id_apply)
qed

text \<open>
  Claim C3: the evaluator has no guard on the side length. With a negative side it returns normally, here at \<open>r = -1\<close> with an identity value of \<open>-4/3\<close>, so it does not fail for every \<open>r \<le> 0\<close>.
\<close>

theorem negative_side_counterexample:
  "evaluate (- 1) blank =
     Inr \<lparr>r = - 1, diag_length = sqrt 3, sphere_radius = sqrt 3 / 2,
          sphere_volume = (4 / 3) * pi * (sqrt 3 / 2) ^ 3,
          x = PyFloat (- (sqrt 3 / 2)), sin_pi_3 = - (4 / 3), stdout = []\<rparr>"
  using evaluate_neg[of "- 1" blank] by (simp add: blank_def)

text \<open>
  Claim C3, as amended: the evaluator has no InvalidInputError and does not look at the
  sign of \<open>r\<close>. In binary64 it fails with ZeroDivisionError whenever \<open>\<bar>r\<bar> \<le> 1 / 2 ^ 600\<close>
  (at \<open>r = 0\<close>, and at small non-zero \<open>r\<close> of either sign, where the cubes underflow),
  with OverflowError whenever \<open>2 ^ 600 \<le> \<bar>r\<bar>\<close> (where \<open>r**2\<close> overflows), and it
  returns a result whenever \<open>1 / 2 ^ 300 \<le> \<bar>r\<bar> \<le> 2 ^ 300\<close>, negative \<open>r\<close> included.
\<close>

theorem evaluator_error_conditions:
  "(\<bar>a\<bar> \<le> 1 / 2 ^ 600 \<longrightarrow> f64_evaluate (Fin a) = Inl ZeroDivisionError) \<and>
   (2 ^ 600 \<le> \<bar>a\<bar> \<longrightarrow> f64_evaluate (Fin a) = Inl OverflowError) \<and>
   (1 / 2 ^ 300 \<le> \<bar>a\<bar> \<and> \<bar>a\<bar> \<le> 2 ^ 300 \<longrightarrow> (\<exists>res. f64_evaluate (Fin a) = Inr res))"
  using f64_evaluate_tiny[of a] f64_evaluate_huge[of a] f64_evaluate_returns[of a] by blast

theorem evaluator_error_conditions_witness:
  "f64_evaluate (Fin 0) = Inl ZeroDivisionError \<and>
   f64_evaluate (Fin (1 / 2 ^ 600)) = Inl ZeroDivisionError \<and>
   f64_evaluate (Fin (2 ^ 600)) = Inl OverflowError \<and>
   (\<exists>res. f64_evaluate (Fin (- 1)) = Inr res)"
  using evaluator_error_conditions[of 0] evaluator_error_conditions[of "1 / 2 ^ 600"]
    evaluator_error_conditions[of "2 ^ 600"] evaluator_error_conditions[of "- 1"]
  by simp

text \<open>
  Claim C4: in binary64 the bound does not hold for every \<open>r > 0\<close>. At \<open>r = 1 / 2 ^ 600\<close>
  both squares underflow, the diagonal comes out as \<open>0.0\<close>, and its relative distance
  from \<open>r * sqrt 3\<close> is 1.
\<close>

theorem diag_length_underflow_counterexample:
  "f64_diag_length (Fin (1 / 2 ^ 600)) = Inr (Fin 0) \<and>
   \<not> \<bar>0 - 1 / 2 ^ 600 * sqrt 3\<bar> \<le> 1 / 2 ^ 600 * sqrt 3 / 10 ^ 9"
  by (rule f64_diag_underflow)

text \<open>
  Claim C4, as amended: over exact real arithmetic the diagonal, computed as
  \<open>sqrt (r\<^sup>2 + (sqrt 2 * r)\<^sup>2)\<close>, equals \<open>r * sqrt 3\<close> for every \<open>r > 0\<close>. Computed in
  binary64 it is within a relative tolerance of \<open>1e-9\<close> of \<open>r * sqrt 3\<close> for every
  \<open>r\<close> from \<open>1 / 2 ^ 500\<close> to \<open>2 ^ 490\<close>.
\<close>

theorem diag_length_tolerance:
  "(0 < a \<longrightarrow>
      (\<exists>s'. evaluate a s = Inr s' \<and>
            diag_length s' = sqrt (a\<^sup>2 + (sqrt 2 * a)\<^sup>2) \<and>
            diag_length s' = a * sqrt 3)) \<and>
   (1 / 2 ^ 500 \<le> a \<and> a \<le> 2 ^ 490 \<longrightarrow>
      (\<exists>d. f64_diag_length (Fin a) = Inr (Fin d) \<and>
           \<bar>d - a * sqrt 3\<bar> \<le> a * sqrt 3 / 10 ^ 9))"
proof (intro conjI impI)
  assume "0 < a"
  then show "\<exists>s'. evaluate a s = Inr s' \<and>
            diag_length s' = sqrt (a\<^sup>2 + (sqrt 2 * a)\<^sup>2) \<and>
            diag_length s' = a * sqrt 3"
    by (simp add: evaluate_pos diag_arg_eq real_sqrt_mult)
next
  assume "1 / 2 ^ 500 \<le> a \<and> a \<le> 2 ^ 490"
  then show "\<exists>d. f64_diag_length (Fin a) = Inr (Fin d) \<and>
           \<bar>d - a * sqrt 3\<bar> \<le> a * sqrt 3 / 10 ^ 9"
    using f64_diag_tolerance[of a] by blast
qed

theorem diag_length_tolerance_witness:
  "(\<exists>s'. evaluate 2 blank = Inr s' \<and>
         diag_length s' = sqrt (2 ^ 2 + (sqrt 2 * 2)\<^sup>2) \<and>
         diag_length s' = 2 * sqrt 3) \<and>
   (\<exists>d. f64_diag_length (Fin 2) = Inr (Fin d) \<and>
        \<bar>d - 2 * sqrt 3\<bar> \<le> 2 * sqrt 3 / 10 ^ 9)"
  using diag_length_tolerance[of 2 blank] by simp



text \<open>
  Claim C6: in binary64 the bound does not hold for every \<open>r > 0\<close>. At \<open>r = 1 / 2 ^ 400\<close>
  the radius is a positive float, its cube underflows, and the volume comes out as
  \<open>0.0\<close>, at relative distance 1 from \<open>(4/3) * pi * sphere_radius ^ 3\<close>.
\<close>

theorem sphere_volume_underflow_counterexample:
  "map_sum id
     (\<lambda>(d, \<rho>, vol). (vol, case \<rho> of Fin p \<Rightarrow> 0 < p | Inf s \<Rightarrow> False | NaN \<Rightarrow> False))
     (f64_first_three (Fin (1 / 2 ^ 400))) = Inr (Fin 0, True)"
  by (rule f64_volume_underflow)

text \<open>
  Claim C6, as amended: over exact real arithmetic the volume equals
  \<open>(4/3) * pi * sphere_radius ^ 3\<close> for every \<open>r > 0\<close>. Computed in binary64 it is within
  a relative tolerance of \<open>1e-9\<close> of \<open>(4/3) * pi * sphere_radius ^ 3\<close>, for the radius
  the program computed, for every \<open>r\<close> from \<open>1 / 2 ^ 300\<close> to \<open>2 ^ 300\<close>.
\<close>

theorem sphere_volume_tolerance:
  "(0 < a \<longrightarrow>
      (\<exists>s'. evaluate a s = Inr s' \<and>
            sphere_volume s' = (4 / 3) * pi * (sphere_radius s') ^ 3)) \<and>
   (1 / 2 ^ 300 \<le> a \<and> a \<le> 2 ^ 300 \<longrightarrow>
      (\<exists>d \<rho> v. f64_first_three (Fin a) = Inr (d, Fin \<rho>, Fin v) \<and> 0 < \<rho> \<and>
           \<bar>v - 4 / 3 * pi * \<rho> ^ 3\<bar> \<le> 4 / 3 * pi * \<rho> ^ 3 / 10 ^ 9))"
proof (intro conjI impI)
  assume "0 < a"
  then show "\<exists>s'. evaluate a s = Inr s' \<and>
            sphere_volume s' = (4 / 3) * pi * (sphere_radius s') ^ 3"
    by (simp add: evaluate_pos)
next
  assume "1 / 2 ^ 300 \<le> a \<and> a \<le> 2 ^ 300"
  then show "\<exists>d \<rho> v. f64_first_three (Fin a) = Inr (d, Fin \<rho>, Fin v) \<and> 0 < \<rho> \<and>
           \<bar>v - 4 / 3 * pi * \<rho> ^ 3\<bar> \<le> 4 / 3 * pi * \<rho> ^ 3 / 10 ^ 9"
    using f64_volume_tolerance[of a] by blast
qed

theorem sphere_volume_tolerance_witness:
  "(\<exists>s'. evaluate 2 blank = Inr s' \<and>
         sphere_volume s' = (4 / 3) * pi * (sphere_radius s') ^ 3) \<and>
   (\<exists>d \<rho> v. f64_first_three (Fin 2) = Inr (d, Fin \<rho>, Fin v) \<and> 0 < \<rho> \<and>
        \<bar>v - 4 / 3 * pi * \<rho> ^ 3\<bar> \<le> 4 / 3 * pi * \<rho> ^ 3 / 10 ^ 9)"
  using sphere_volume_tolerance[of 2 blank] by simp

text \<open>
  Claim C7: for every \<open>r > 0\<close> the identity value is exactly \<open>4/3\<close> over the reals, because \<open>x = r * sin (pi/3)\<close> is the sphere radius; so it is the same for any two positive side lengths.
\<close>

theorem identity_value_is_four_thirds:
  "0 < a \<Longrightarrow> 0 < b \<Longrightarrow>
     (\<exists>s'. evaluate a s = Inr s' \<and> sin_pi_3 s' = 4 / 3 \<and>
           x s' = PyFloat (sphere_radius s')) \<and>
     map_sum id sin_pi_3 (evaluate a s) = map_sum id sin_pi_3 (evaluate b t)"
  by (simp add: evaluate_pos)

theorem identity_value_is_four_thirds_witness:
  "(0 :: real) < 1 \<and> (0 :: real) < 5 \<and>
     (\<exists>s'. evaluate 1 blank = Inr s' \<and> sin_pi_3 s' = 4 / 3 \<and>
           x s' = PyFloat (sphere_radius s')) \<and>
     map_sum id sin_pi_3 (evaluate 1 blank) = map_sum id sin_pi_3 (evaluate 5 blank)"
  using identity_value_is_four_thirds[of 1 5 blank blank] by simp

text \<open>
  Claim C8: with \<open>r = 0\<close> the diagonal, radius and volume steps succeed and give 0, the identity step raises ZeroDivisionError, the error ends the evaluator and the script, and the exit status is not zero.
\<close>

theorem zero_side_divides_by_zero:
  "step1 (s\<lparr>r := 0\<rparr>) = Inr (s\<lparr>r := 0, diag_length := 0\<rparr>) \<and>
   sphere_radius (step2 (s\<lparr>r := 0, diag_length := 0\<rparr>)) = 0 \<and>
   sphere_volume (step3 (step2 (s\<lparr>r := 0, diag_length := 0\<rparr>))) = 0 \<and>
   step4 (step3 (step2 (s\<lparr>r := 0, diag_length := 0\<rparr>))) = Inl ZeroDivisionError \<and>
   evaluate 0 s = Inl ZeroDivisionError \<and>
   script visualise 0 b c s = Inl ZeroDivisionError \<and>
   exit_status (script visualise 0 b c s) = 1"
  by (simp add: step1_eq step2_def step3_def step4_def truediv_def evaluate_zero
      script_def first_run_def emit_def exit_status_def Let_def)

text \<open>
  Claim C9: the two scripts compute the same thing: the pipeline run after either figure block gives the same result, and the two module bodies end in the same namespace and output (or the same error) for any three side lengths, in particular for 1, 2 and 3.
\<close>

theorem scripts_agree:
  "evaluate a (visualise_numpy s) = evaluate a (visualise_plotly s) \<and>
   script visualise_numpy a b c s = script visualise_plotly a b c s \<and>
   special_angles_numpy s = special_angles s"
  by (simp add: evaluate_after_numpy script_def example_def special_angles_def
      special_angles_numpy_def cong: sum.case_cong)

text \<open>
  Claim C10: the evaluator is deterministic and keeps no hidden state: its four outputs are the same from any two starting namespaces, and running it a second time with the same side length changes nothing.
\<close>

theorem no_hidden_state:
  "map_sum id outputs (evaluate a s) = map_sum id outputs (evaluate a t) \<and>
   case_sum Inl (evaluate a) (evaluate a s) = evaluate a s"
  by (simp add: evaluate_unfold outputs_def)

end
